theory Spec2Isabelle
  imports Complex_Main
begin

section \<open>Numbers\<close>

text \<open>
  The source computes with JavaScript numbers. They are modelled as real numbers: every
  arithmetic operation and \<open>Math.exp\<close>, \<open>Math.sin\<close>, \<open>Math.cos\<close>, \<open>Math.log\<close>,
  \<open>Math.sqrt\<close> is its exact real counterpart, so rounding, overflow and underflow are
  outside the model. A value of type \<open>num\<close> is a number that may be non-finite:
  \<open>Some x\<close> is the finite value \<open>x\<close>, \<open>None\<close> stands for \<open>Infinity\<close>,
  \<open>-Infinity\<close> or \<open>NaN\<close>. In exact arithmetic a non-finite value arises only from
  a division by zero (or a logarithm of a non-positive number), and the source never
  turns one back into a finite value where the model says \<open>None\<close>.
\<close>

type_synonym num = "real option"

section \<open>Constants of \<open>index.tsx\<close>\<close>

definition BETA :: real where
  "BETA = 1.5"

definition G :: real where
  "G = 9.81"

definition GROUND_LINE_NORM :: real where
  "GROUND_LINE_NORM = 0.942"

definition NOZZLE_TOP_NORM :: real where
  "NOZZLE_TOP_NORM = 0.150"

definition PARTICLE_LIFETIME :: real where
  "PARTICLE_LIFETIME = 3000"

definition TRAIL_LENGTH :: nat where
  "TRAIL_LENGTH = 15"

section \<open>Data\<close>

record Particle =
  startTime :: real
  h0 :: real
  scenario :: int
  angle :: real
  velocity :: real
  startXNorm :: real
  startYNorm :: real
  isDead :: bool
  psize :: real
  history :: "(real \<times> real) list"

record PhysicsResult =
  range_m :: num
  height :: num
  time :: num
  vFinal :: num

record Config =
  cfg_id :: int
  cfg_x :: real
  cfg_h0 :: real
  cfg_dir :: real
  cfg_label :: string

text \<open>The state record that \<open>calculatePhysics\<close> returns.\<close>

record PhysState =
  st_x :: real
  st_y :: real
  physX :: real
  physY :: real
  impact :: bool
  vImpact :: real

text \<open>Reading a property of \<open>undefined\<close> throws.\<close>

datatype error = TypeError

definition configs :: "Config list" where
  "configs =
    [\<lparr>cfg_id = 1, cfg_x = 0.17, cfg_h0 = 0.45, cfg_dir = 1, cfg_label = ''S1''\<rparr>,
     \<lparr>cfg_id = 2, cfg_x = 0.51, cfg_h0 = 0.45, cfg_dir = 1, cfg_label = ''S2''\<rparr>,
     \<lparr>cfg_id = 3, cfg_x = 0.901, cfg_h0 = 1.0, cfg_dir = -1, cfg_label = ''S3''\<rparr>]"

section \<open>The particle physics evaluator\<close>

text \<open>
  The four quantities \<open>dx\<close>, \<open>dy\<close>, \<open>vx\<close>, \<open>vy\<close> that \<open>calculatePhysics\<close>
  assigns in its two branches, as functions of the particle and the elapsed time.
\<close>

definition phys_dx :: "Particle \<Rightarrow> real \<Rightarrow> real" where
  "phys_dx particle dt =
    (if scenario particle = 1 then velocity particle * cos (angle particle) * dt
     else (velocity particle * cos (angle particle) / BETA) * (1 - exp (- BETA * dt)))"

definition phys_dy :: "Particle \<Rightarrow> real \<Rightarrow> real" where
  "phys_dy particle dt =
    (if scenario particle = 1
     then velocity particle * sin (angle particle) * dt - 0.5 * G * dt ^ 2
     else (1 / BETA) * (velocity particle * sin (angle particle) + G / BETA)
            * (1 - exp (- BETA * dt)) - (G * dt / BETA))"

definition phys_vx :: "Particle \<Rightarrow> real \<Rightarrow> real" where
  "phys_vx particle dt =
    (if scenario particle = 1 then velocity particle * cos (angle particle)
     else velocity particle * cos (angle particle) * exp (- BETA * dt))"

definition phys_vy :: "Particle \<Rightarrow> real \<Rightarrow> real" where
  "phys_vy particle dt =
    (if scenario particle = 1 then velocity particle * sin (angle particle) - G * dt
     else (velocity particle * sin (angle particle) + G / BETA) * exp (- BETA * dt)
            - (G / BETA))"

text \<open>
  \<open>calculatePhysics(particle, now)\<close>. The result is the particle as the call leaves it
  (\<open>isDead\<close> is set on impact) and the returned value: \<open>None\<close> is \<open>null\<close>. The
  configuration is looked up after the test \<open>dt < 0\<close>; when no configuration has the
  particle's scenario, \<open>cfg.dir\<close> throws.
\<close>

definition calculatePhysics ::
  "Particle \<Rightarrow> real \<Rightarrow> error + (Particle \<times> PhysState option)" where
  "calculatePhysics particle now =
    (let dt = (now - startTime particle) / 1000 in
     if dt < 0 then Inr (particle, None)
     else
       (case find (\<lambda>c. cfg_id c = scenario particle) configs of
          None \<Rightarrow> Inl TypeError
        | Some cfg \<Rightarrow>
            (let direction = cfg_dir cfg;
                 dx = phys_dx particle dt;
                 dy = phys_dy particle dt;
                 vx = phys_vx particle dt;
                 vy = phys_vy particle dt;
                 pY = h0 particle + dy
             in
               if pY \<le> 0.45 \<and> vy < 0 then
                 (let vImp = sqrt (vx * vx + vy * vy);
                      groundYPixel = GROUND_LINE_NORM
                        - (0.45 - 0.25) * ((GROUND_LINE_NORM - NOZZLE_TOP_NORM) / (1.0 - 0.25))
                  in Inr (particle\<lparr>isDead := True\<rparr>,
                          Some \<lparr>st_x = startXNorm particle + (dx * 0.22 * direction),
                                st_y = groundYPixel,
                                physX = \<bar>dx\<bar>,
                                physY = 0.45,
                                impact = True,
                                vImpact = vImp\<rparr>))
               else
                 (let hScale = (GROUND_LINE_NORM - NOZZLE_TOP_NORM) / (1.0 - 0.25);
                      screenYNorm = GROUND_LINE_NORM - (pY - 0.25) * hScale
                  in Inr (particle,
                          Some \<lparr>st_x = startXNorm particle + (dx * 0.22 * direction),
                                st_y = screenYNorm,
                                physX = \<bar>dx\<bar>,
                                physY = pY,
                                impact = False,
                                vImpact = sqrt (vx * vx + vy * vy)\<rparr>)))))"

section \<open>The trajectory solver\<close>

text \<open>
  \<open>solveScenario\<close> declares its own \<open>g = 9.81\<close> and \<open>beta = 1.5\<close>; they are the
  values of \<open>G\<close> and \<open>BETA\<close>. The two expressions of the loop body:
\<close>

definition solver_y :: "real \<Rightarrow> real \<Rightarrow> real \<Rightarrow> real" where
  "solver_y hs vy0 t =
     hs + (1 / BETA) * (vy0 + G / BETA) * (1 - exp (- BETA * t)) - (G * t / BETA)"

definition solver_vy :: "real \<Rightarrow> real \<Rightarrow> real" where
  "solver_vy vy0 t = (vy0 + G / BETA) * exp (- BETA * t) - (G / BETA)"

text \<open>
  The loop \<open>for (let i = 0; i < 15; i++)\<close>, by the number of steps left. A step with
  \<open>vy_t = 0\<close> divides by zero. There \<open>y\<close> is at its maximum, which is at least the
  launch height, so the quotient is \<open>Infinity\<close> (or \<open>NaN\<close> for \<open>0 / 0\<close>) and \<open>t\<close>
  becomes \<open>-Infinity\<close> or \<open>NaN\<close>; a later step turns \<open>-Infinity\<close> into \<open>NaN\<close>
  (\<open>Infinity - Infinity\<close> in \<open>y\<close>). The loop ends with a non-finite \<open>t\<close>, and the
  range and final speed computed from it are non-finite as well.
\<close>

fun newton :: "nat \<Rightarrow> real \<Rightarrow> real \<Rightarrow> real \<Rightarrow> num" where
  "newton 0 hs vy0 t = Some t"
| "newton (Suc n) hs vy0 t =
     (let y = solver_y hs vy0 t;
          vy_t = solver_vy vy0 t
      in if vy_t = 0 then None else newton n hs vy0 (t - y / vy_t))"

text \<open>
  \<open>tApex\<close>. For \<open>g + beta * vy0 = 0\<close> the quotient is \<open>Infinity\<close> and \<open>tApex\<close> is
  \<open>-Infinity\<close>; for a negative sum the logarithm is \<open>NaN\<close>. Neither passes the test
  \<open>tApex > 0\<close>.
\<close>

definition tApex :: "real \<Rightarrow> num" where
  "tApex vy0 =
     (if G + BETA * vy0 > 0 then Some (- (1 / BETA) * ln (G / (G + BETA * vy0))) else None)"

definition maxHeight :: "real \<Rightarrow> real \<Rightarrow> real" where
  "maxHeight hs vy0 =
     (case tApex vy0 of
        None \<Rightarrow> hs
      | Some ta \<Rightarrow>
          if ta > 0
          then hs + (1 / BETA) * (vy0 + G / BETA) * (1 - exp (- BETA * ta)) - (G * ta / BETA)
          else hs)"

definition solveScenario :: "int \<Rightarrow> real \<Rightarrow> real \<Rightarrow> PhysicsResult" where
  "solveScenario scenarioId angleDeg v0 =
    (let angleRad = (angleDeg * pi) / 180;
         vx0 = v0 * cos angleRad;
         vy0 = v0 * sin angleRad
     in
       if scenarioId = 1 then
         (let tFlight = (2 * vy0) / G
          in \<lparr>range_m = Some (vx0 * tFlight),
              height = Some ((vy0 * vy0) / (2 * G)),
              time = Some tFlight,
              vFinal = Some v0\<rparr>)
       else
         (let hs = (if scenarioId = 3 then 1.0 else 0.0);
              t = newton 15 hs vy0 (if scenarioId = 3 then 0.65 else 0.36)
          in \<lparr>range_m = map_option (\<lambda>t. (vx0 / BETA) * (1 - exp (- BETA * t))) t,
              height = Some (maxHeight hs vy0),
              time = t,
              vFinal = map_option
                (\<lambda>t. sqrt ((vx0 * exp (- BETA * t)) ^ 2
                          + ((vy0 + G / BETA) * exp (- BETA * t) - G / BETA) ^ 2)) t\<rparr>))"

section \<open>The particle loop of \<open>p.draw\<close>\<close>

text \<open>
  One pass of the loop body for one particle, in a frame with the given clock and drawing
  geometry. The result is the particle as the frame leaves it, or \<open>None\<close> when the frame
  removes it from \<open>sim.particles\<close>. Drawing and the decorative splashes do not touch
  the particle and are left out.
\<close>

record Frame =
  f_now :: real
  f_offsetX :: real
  f_drawW :: real
  f_drawH :: real

definition push_history :: "(real \<times> real) list \<Rightarrow> real \<times> real \<Rightarrow> (real \<times> real) list" where
  "push_history hist pt =
     (let h = hist @ [pt] in if length h > TRAIL_LENGTH then tl h else h)"

definition draw_particle :: "Frame \<Rightarrow> Particle \<Rightarrow> error + Particle option" where
  "draw_particle fr particle =
    (case calculatePhysics particle (f_now fr) of
       Inl e \<Rightarrow> Inl e
     | Inr (p1, state) \<Rightarrow>
        (let p2 = (case state of
                     None \<Rightarrow> p1
                   | Some st \<Rightarrow>
                       (let sx = f_offsetX fr + (st_x st * f_drawW fr);
                            sy = st_y st * f_drawH fr;
                            p' = p1\<lparr>history := push_history (history p1) (sx, sy)\<rparr>
                        in if impact st then p'\<lparr>history := []\<rparr> else p'))
         in if isDead p2 \<or> (f_now fr - startTime p2 > PARTICLE_LIFETIME)
            then Inr None else Inr (Some p2)))"

text \<open>A run of frames for one particle; a removed particle is never visited again.\<close>

fun draw_frames :: "Frame list \<Rightarrow> Particle \<Rightarrow> error + Particle option" where
  "draw_frames [] particle = Inr (Some particle)"
| "draw_frames (fr # frs) particle =
     (case draw_particle fr particle of
        Inl e \<Rightarrow> Inl e
      | Inr None \<Rightarrow> Inr None
      | Inr (Some p') \<Rightarrow> draw_frames frs p')"

text \<open>
  The screen position that a frame records for a particle, when \<open>calculatePhysics\<close>
  returns a state.
\<close>

definition recorded_pos :: "Particle \<Rightarrow> Frame \<Rightarrow> (real \<times> real) option" where
  "recorded_pos particle fr =
     (case calculatePhysics particle (f_now fr) of
        Inr (_, Some st) \<Rightarrow> Some (f_offsetX fr + (st_x st * f_drawW fr), st_y st * f_drawH fr)
      | _ \<Rightarrow> None)"

definition recorded :: "Particle \<Rightarrow> Frame list \<Rightarrow> (real \<times> real) list" where
  "recorded particle frs = List.map_filter (recorded_pos particle) frs"

text \<open>
  The particle that \<open>addParticles\<close> creates for scenario \<open>sid\<close> with configuration
  \<open>cfg\<close>, with the random jitter of angle and speed at zero. The start time (the clock
  minus a random delay) is a parameter; the size, a random draw that plays no part in the
  physics, is fixed.
\<close>

definition jitter_free :: "int \<Rightarrow> real \<Rightarrow> real \<Rightarrow> real \<Rightarrow> Config \<Rightarrow> Particle" where
  "jitter_free sid angleDeg v0 start cfg =
     \<lparr>startTime = start, h0 = cfg_h0 cfg, scenario = sid,
      angle = (angleDeg * pi) / 180, velocity = v0,
      startXNorm = cfg_x cfg,
      startYNorm = GROUND_LINE_NORM
        - (cfg_h0 cfg - 0.25) * ((GROUND_LINE_NORM - NOZZLE_TOP_NORM) / (1.0 - 0.25)),
      isDead = False, psize = 2, history = []\<rparr>"

text \<open>The update \<open>t = t - y / vy_t\<close> of one loop step, for a non-zero \<open>vy_t\<close>.\<close>

definition newton_step :: "real \<Rightarrow> real \<Rightarrow> real \<Rightarrow> real" where
  "newton_step hs vy0 t = t - solver_y hs vy0 t / solver_vy vy0 t"

text \<open>
  Comparison of two results that holds only when both are finite numbers.
\<close>

definition num_less :: "num \<Rightarrow> num \<Rightarrow> bool" where
  "num_less a b = (case (a, b) of (Some x, Some y) \<Rightarrow> x < y | _ \<Rightarrow> False)"

text \<open>Seventeen frames at clock 0 that differ in their horizontal offset.\<close>

definition demo_frames :: "Frame list" where
  "demo_frames =
     map (\<lambda>k. \<lparr>f_now = 0, f_offsetX = k, f_drawW = 1, f_drawH = 1\<rparr>)
       [1, 2, 3, 4, 5, 6, 7, 8, 9, 10, 11, 12, 13, 14, 15, 16, 17]"

section \<open>Facts about the constants and the exponential\<close>

lemma G_pos: "0 < G"
  by (simp add: G_def)

lemma BETA_pos: "0 < BETA"
  by (simp add: BETA_def)

lemma num_less_Some: "num_less (Some x) (Some y) \<longleftrightarrow> x < y"
  by (simp add: num_less_def)

lemma exp_gt_add_one:
  fixes u :: real
  assumes "u \<noteq> 0"
  shows "1 + u < exp u"
proof (cases "0 \<le> 1 + u / 2")
  case True
  have "0 < u ^ 2" using assms by simp
  then have "1 + u < (1 + u / 2) ^ 2"
    by (simp add: power2_eq_square algebra_simps)
  also have "\<dots> \<le> (exp (u / 2)) ^ 2"
    by (rule power_mono [OF exp_ge_add_one_self True])
  also have "\<dots> = exp u"
    by (simp add: power2_eq_square flip: exp_add)
  finally show ?thesis .
next
  case False
  then have "1 + u < 0" by simp
  also have "0 < exp u" by simp
  finally show ?thesis .
qed

section \<open>The height equation lies below its tangents\<close>

text \<open>
  The solver's \<open>y\<close> is concave in \<open>t\<close> and \<open>vy_t\<close> is its derivative: the gap between
  the tangent at \<open>t\<close> and the curve at \<open>s\<close> is a non-negative multiple of
  \<open>exp u - (1 + u)\<close> for \<open>u = - BETA * (s - t)\<close>.
\<close>

lemma tangent_gap:
  "solver_y hs vy0 t + solver_vy vy0 t * (s - t) - solver_y hs vy0 s
   = ((vy0 + G / BETA) * exp (- BETA * t) / BETA)
       * (exp (- BETA * (s - t)) - (1 + (- BETA * (s - t))))"
proof -
  have e: "exp (- BETA * s) = exp (- BETA * t) * exp (- BETA * (s - t))"
    by (simp add: algebra_simps flip: exp_add)
  have b: "BETA \<noteq> 0" using BETA_pos by simp
  show ?thesis
    unfolding solver_y_def solver_vy_def e using b
    by (simp add: field_simps)
qed

lemma tangent_le:
  assumes "0 \<le> vy0 + G / BETA"
  shows "solver_y hs vy0 s \<le> solver_y hs vy0 t + solver_vy vy0 t * (s - t)"
proof -
  have "0 \<le> ((vy0 + G / BETA) * exp (- BETA * t) / BETA)
       * (exp (- BETA * (s - t)) - (1 + (- BETA * (s - t))))"
    using assms BETA_pos exp_ge_add_one_self [of "- BETA * (s - t)"]
    by (intro mult_nonneg_nonneg divide_nonneg_pos) auto
  then show ?thesis using tangent_gap [of hs vy0 t s] by linarith
qed

lemma tangent_less:
  assumes "0 < vy0 + G / BETA" and "s \<noteq> t"
  shows "solver_y hs vy0 s < solver_y hs vy0 t + solver_vy vy0 t * (s - t)"
proof -
  have "- BETA * (s - t) \<noteq> 0" using assms(2) BETA_pos by simp
  then have "0 < exp (- BETA * (s - t)) - (1 + (- BETA * (s - t)))"
    using exp_gt_add_one [of "- BETA * (s - t)"] by simp
  then have "0 < ((vy0 + G / BETA) * exp (- BETA * t) / BETA)
       * (exp (- BETA * (s - t)) - (1 + (- BETA * (s - t))))"
    using assms(1) BETA_pos by (intro mult_pos_pos divide_pos_pos) auto
  then show ?thesis using tangent_gap [of hs vy0 t s] by linarith
qed

lemma solver_y_0: "solver_y hs vy0 0 = hs"
  by (simp add: solver_y_def)

section \<open>One Newton step\<close>

lemma newton_Suc:
  "solver_vy vy0 t \<noteq> 0 \<Longrightarrow>
     newton (Suc n) hs vy0 t = newton n hs vy0 (newton_step hs vy0 t)"
  by (simp add: newton_step_def Let_def)

lemma newton_Suc_zero_divisor:
  "solver_vy vy0 t = 0 \<Longrightarrow> newton (Suc n) hs vy0 t = None"
  by (simp add: Let_def)

lemma step_tangent_zero:
  assumes "solver_vy vy0 t \<noteq> 0"
  shows "solver_y hs vy0 t + solver_vy vy0 t * (newton_step hs vy0 t - t) = 0"
  using assms by (simp add: newton_step_def)

text \<open>After a step the height equation is never positive.\<close>

lemma step_residual_le:
  assumes "0 \<le> vy0 + G / BETA" and "solver_vy vy0 t \<noteq> 0"
  shows "solver_y hs vy0 (newton_step hs vy0 t) \<le> 0"
  using tangent_le [OF assms(1), of hs "newton_step hs vy0 t" t]
    step_tangent_zero [OF assms(2), of hs]
  by simp

lemma descending_pos:
  assumes "0 \<le> vy0" and "solver_vy vy0 t < 0"
  shows "0 < t"
proof (rule ccontr)
  assume "\<not> 0 < t"
  then have "1 \<le> exp (- BETA * t)"
    using BETA_pos by (simp add: mult_nonneg_nonpos2 mult_le_0_iff)
  moreover have "0 < vy0 + G / BETA"
    using assms(1) G_pos BETA_pos by (simp add: add_nonneg_pos)
  ultimately have "(vy0 + G / BETA) * 1 \<le> (vy0 + G / BETA) * exp (- BETA * t)"
    by (intro mult_left_mono) auto
  then show False using assms unfolding solver_vy_def by simp
qed

text \<open>
  A step from a point past the apex (\<open>vy_t < 0\<close>) stays past the apex: the iteration
  moves towards the positive root.
\<close>

lemma step_descending:
  assumes v: "0 \<le> vy0" and h: "0 \<le> hs" and d: "solver_vy vy0 t < 0"
  shows "solver_vy vy0 (newton_step hs vy0 t) < 0"
proof (rule ccontr)
  let ?t' = "newton_step hs vy0 t"
  assume "\<not> solver_vy vy0 ?t' < 0"
  then have d': "0 \<le> solver_vy vy0 ?t'" by simp
  have A: "0 < vy0 + G / BETA" using v G_pos BETA_pos by (simp add: add_nonneg_pos)
  have tpos: "0 < t" using descending_pos [OF v d] .
  have nz: "solver_vy vy0 t \<noteq> 0" using d by simp
  have "hs < solver_y hs vy0 t + solver_vy vy0 t * (0 - t)"
    using tangent_less [OF A, of 0 t hs] tpos by (simp add: solver_y_0)
  also have "\<dots> = - solver_vy vy0 t * ?t'"
    using nz by (simp add: newton_step_def field_simps)
  finally have "0 < - solver_vy vy0 t * ?t'" using h by simp
  then have t'pos: "0 < ?t'" using d by (auto simp: mult_less_0_iff)
  have "hs < solver_y hs vy0 ?t' + solver_vy vy0 ?t' * (0 - ?t')"
    using tangent_less [OF A, of 0 ?t' hs] t'pos by (simp add: solver_y_0)
  moreover have "solver_y hs vy0 ?t' \<le> 0"
    using step_residual_le [of vy0 t hs] A nz by simp
  moreover have "0 \<le> solver_vy vy0 ?t' * ?t'" using d' t'pos by simp
  ultimately show False using h by simp
qed

text \<open>
  A step from a point before the apex (\<open>vy_t > 0\<close>) lands left of \<open>t = 0\<close>, where the
  droplet is still rising: the iteration moves towards the root of the height equation at
  or before \<open>t = 0\<close> and stays negative.
\<close>

lemma step_ascending:
  assumes h: "0 \<le> hs" and v: "0 < vy0" and d: "0 < solver_vy vy0 t" and t: "t \<noteq> 0"
  shows "newton_step hs vy0 t < 0 \<and> 0 < solver_vy vy0 (newton_step hs vy0 t)"
proof -
  let ?t' = "newton_step hs vy0 t"
  have A: "0 < vy0 + G / BETA" using v G_pos BETA_pos by (simp add: add_pos_pos)
  have nz: "solver_vy vy0 t \<noteq> 0" using d by simp
  have "hs < solver_y hs vy0 t + solver_vy vy0 t * (0 - t)"
    using tangent_less [OF A, of 0 t hs] t by (simp add: solver_y_0)
  also have "\<dots> = - solver_vy vy0 t * ?t'"
    using nz by (simp add: newton_step_def field_simps)
  finally have "0 < - solver_vy vy0 t * ?t'" using h by simp
  then have neg: "?t' < 0" using d by (simp add: zero_less_mult_iff mult_less_0_iff)
  then have "1 < exp (- BETA * ?t')" using BETA_pos by (simp add: mult_less_0_iff)
  then have "(vy0 + G / BETA) * 1 < (vy0 + G / BETA) * exp (- BETA * ?t')"
    using A by (intro mult_strict_left_mono) auto
  then have "0 < solver_vy vy0 ?t'" using v unfolding solver_vy_def by simp
  with neg show ?thesis by simp
qed

section \<open>The loop\<close>

lemma newton_descending:
  assumes "0 \<le> vy0" and "0 \<le> hs" and "solver_vy vy0 t < 0"
  shows "\<exists>t'. newton n hs vy0 t = Some t' \<and> solver_vy vy0 t' < 0"
  using assms(3)
proof (induction n arbitrary: t)
  case 0
  then show ?case by simp
next
  case (Suc n)
  have "solver_vy vy0 (newton_step hs vy0 t) < 0"
    using step_descending [OF assms(1,2) Suc.prems] .
  from Suc.IH [OF this] show ?case using Suc.prems
    by (simp add: newton_Suc del: newton.simps)
qed

lemma newton_ascending:
  assumes "0 \<le> hs" and "0 < vy0" and "0 < solver_vy vy0 t" and "t \<noteq> 0"
  shows "\<exists>t'. newton n hs vy0 t = Some t' \<and> 0 < solver_vy vy0 t' \<and> t' \<noteq> 0
              \<and> (0 < n \<longrightarrow> t' < 0)"
  using assms(3,4)
proof (induction n arbitrary: t)
  case 0
  then show ?case by simp
next
  case (Suc n)
  have s: "newton_step hs vy0 t < 0" "0 < solver_vy vy0 (newton_step hs vy0 t)"
    using step_ascending [OF assms(1,2) Suc.prems] by simp_all
  then have "newton_step hs vy0 t \<noteq> 0" by simp
  from Suc.IH [OF s(2) this] obtain t' where
    t': "newton n hs vy0 (newton_step hs vy0 t) = Some t'" "0 < solver_vy vy0 t'"
        "t' \<noteq> 0" "0 < n \<longrightarrow> t' < 0"
    by blast
  have "t' < 0"
  proof (cases n)
    case 0
    then show ?thesis using t'(1) s(1) by simp
  next
    case (Suc m)
    then show ?thesis using t'(4) by simp
  qed
  then show ?case using t' Suc.prems by (simp add: newton_Suc del: newton.simps)
qed

lemma newton_residual_le:
  assumes "0 \<le> vy0 + G / BETA" and "newton (Suc n) hs vy0 t = Some t'"
  shows "solver_y hs vy0 t' \<le> 0"
  using assms(2)
proof (induction n arbitrary: t)
  case 0
  then show ?case
    using step_residual_le [OF assms(1), of t hs]
    by (auto simp: Let_def newton_step_def split: if_splits)
next
  case (Suc n)
  from Suc.prems have nz: "solver_vy vy0 t \<noteq> 0"
    by (auto simp: Let_def split: if_splits)
  with Suc.prems have "newton (Suc n) hs vy0 (newton_step hs vy0 t) = Some t'"
    by (simp add: newton_Suc del: newton.simps)
  from Suc.IH [OF this] show ?case .
qed

section \<open>How fast the loop closes in on the root\<close>

lemma psi_nonneg:
  fixes u :: real
  assumes "0 \<le> u"
  shows "0 \<le> (u - 2) * exp u + u + 2"
proof -
  let ?f = "\<lambda>x::real. (x - 2) * exp x + x + 2"
  have "?f 0 \<le> ?f u"
  proof (rule DERIV_nonneg_imp_nondecreasing [OF assms])
    fix x :: real
    assume "0 \<le> x" "x \<le> u"
    have D: "(?f has_real_derivative ((x - 1) * exp x + 1)) (at x)"
      by (auto intro!: derivative_eq_intros simp: algebra_simps)
    have "(1 - x) \<le> exp (- x)" using exp_ge_add_one_self [of "- x"] by simp
    then have "(1 - x) * exp x \<le> exp (- x) * exp x"
      by (rule mult_right_mono) simp
    also have "\<dots> = 1" by (simp flip: exp_add)
    finally have "0 \<le> (x - 1) * exp x + 1" by (simp add: algebra_simps)
    with D show "\<exists>y. (?f has_real_derivative y) (at x) \<and> 0 \<le> y" by blast
  qed
  then show ?thesis by simp
qed

lemma step_residual_eq:
  assumes "solver_vy vy0 t \<noteq> 0"
  shows "- solver_y hs vy0 (newton_step hs vy0 t)
         = ((vy0 + G / BETA) * exp (- BETA * t) / BETA)
             * (exp (BETA * (solver_y hs vy0 t / solver_vy vy0 t))
                - (1 + BETA * (solver_y hs vy0 t / solver_vy vy0 t)))"
proof -
  have s: "- BETA * (newton_step hs vy0 t - t) = BETA * (solver_y hs vy0 t / solver_vy vy0 t)"
    by (simp add: newton_step_def)
  show ?thesis
    using tangent_gap [of hs vy0 t "newton_step hs vy0 t"] step_tangent_zero [OF assms, of hs]
    unfolding s by simp
qed

lemma step_contracts:
  assumes v: "0 \<le> vy0" and h: "0 \<le> hs"
    and d: "solver_vy vy0 t < 0" and y: "solver_y hs vy0 t \<le> 0"
  shows "- solver_y hs vy0 (newton_step hs vy0 t) \<le> (- solver_y hs vy0 t) / 2"
    and "- solver_y hs vy0 (newton_step hs vy0 t) < G / BETA ^ 2"
proof -
  define a where "a = (vy0 + G / BETA) * exp (- BETA * t)"
  define u where "u = BETA * (solver_y hs vy0 t / solver_vy vy0 t)"
  define r' where "r' = - solver_y hs vy0 (newton_step hs vy0 t)"
  have b: "0 < BETA" by (rule BETA_pos)
  have a0: "0 \<le> a" using v G_pos b by (simp add: a_def)
  have "0 \<le> solver_y hs vy0 t / solver_vy vy0 t" by (rule divide_nonpos_neg [OF y d])
  then have u0: "0 \<le> u" unfolding u_def using b by (intro mult_nonneg_nonneg) simp_all
  have nz: "solver_vy vy0 t \<noteq> 0" using d by simp
  have r': "r' = (a / BETA) * (exp u - (1 + u))"
    unfolding r'_def a_def u_def by (rule step_residual_eq [OF nz])
  have dd: "solver_vy vy0 t = a - G / BETA" by (simp add: solver_vy_def a_def)
  have "- BETA * newton_step hs vy0 t = - BETA * t + u"
    by (simp add: newton_step_def u_def algebra_simps)
  then have "exp (- BETA * newton_step hs vy0 t) = exp (- BETA * t) * exp u"
    by (simp only: exp_add)
  then have "solver_vy vy0 (newton_step hs vy0 t) = a * exp u - G / BETA"
    by (simp add: solver_vy_def a_def algebra_simps)
  with step_descending [OF v h d] have ae: "a * exp u < G / BETA" by simp
  have "r' \<le> (a / BETA) * exp u"
    unfolding r' using a0 b u0 by (intro mult_left_mono) auto
  also have "\<dots> = (a * exp u) / BETA" by simp
  also have "\<dots> < (G / BETA) / BETA" by (rule divide_strict_right_mono [OF ae b])
  finally show "- solver_y hs vy0 (newton_step hs vy0 t) < G / BETA ^ 2"
    by (simp add: r'_def power2_eq_square)
  have m: "G / BETA - a = - solver_vy vy0 t" by (simp add: dd)
  have r: "- solver_y hs vy0 t = u * (G / BETA - a) / BETA"
    unfolding m u_def using nz b by simp
  have "2 * (a * (exp u - (1 + u))) \<le> u * (a * exp u - a)"
  proof -
    have "0 \<le> a * ((u - 2) * exp u + u + 2)"
      using a0 psi_nonneg [OF u0] by (rule mult_nonneg_nonneg)
    then show ?thesis by (simp add: algebra_simps)
  qed
  also have "\<dots> \<le> u * (G / BETA - a)"
    using u0 ae by (intro mult_left_mono) simp_all
  finally have "2 * (a * (exp u - (1 + u))) / BETA \<le> u * (G / BETA - a) / BETA"
    using b by (simp add: divide_right_mono)
  then have "2 * r' \<le> - solver_y hs vy0 t"
    unfolding r r' by simp
  then show "- solver_y hs vy0 (newton_step hs vy0 t) \<le> (- solver_y hs vy0 t) / 2"
    by (simp add: r'_def)
qed

lemma newton_contracts:
  assumes v: "0 \<le> vy0" and h: "0 \<le> hs"
    and "solver_vy vy0 t < 0" and "solver_y hs vy0 t \<le> 0"
  shows "\<exists>t'. newton n hs vy0 t = Some t' \<and> solver_vy vy0 t' < 0
            \<and> solver_y hs vy0 t' \<le> 0
            \<and> - solver_y hs vy0 t' \<le> (- solver_y hs vy0 t) / 2 ^ n"
  using assms(3,4)
proof (induction n arbitrary: t)
  case 0
  then show ?case by simp
next
  case (Suc n)
  let ?t1 = "newton_step hs vy0 t"
  have nz: "solver_vy vy0 t \<noteq> 0" using Suc.prems(1) by simp
  have d1: "solver_vy vy0 ?t1 < 0" using step_descending [OF v h Suc.prems(1)] .
  have A: "0 \<le> vy0 + G / BETA" using v G_pos BETA_pos by simp
  have y1: "solver_y hs vy0 ?t1 \<le> 0" using step_residual_le [OF A nz] .
  have c: "- solver_y hs vy0 ?t1 \<le> (- solver_y hs vy0 t) / 2"
    using step_contracts(1) [OF v h Suc.prems] .
  from Suc.IH [OF d1 y1] obtain t' where
    t': "newton n hs vy0 ?t1 = Some t'" "solver_vy vy0 t' < 0" "solver_y hs vy0 t' \<le> 0"
        "- solver_y hs vy0 t' \<le> (- solver_y hs vy0 ?t1) / 2 ^ n" by blast
  have "(- solver_y hs vy0 ?t1) / 2 ^ n \<le> ((- solver_y hs vy0 t) / 2) / 2 ^ n"
    by (rule divide_right_mono [OF c]) simp
  with t'(4) have "- solver_y hs vy0 t' \<le> (- solver_y hs vy0 t) / 2 ^ Suc n"
    by simp
  with t'(1-3) show ?case using nz by (simp add: newton_Suc del: newton.simps)
qed

text \<open>
  Fifteen steps from a seed past the apex: the first step may overshoot by any amount,
  the second brings the residual below \<open>g / beta\<^sup>2\<close>, and the other thirteen halve it.
\<close>

lemma newton_15_residual:
  assumes v: "0 \<le> vy0" and h: "0 \<le> hs" and d: "solver_vy vy0 t < 0"
  shows "\<exists>t'. newton 15 hs vy0 t = Some t' \<and> 0 < t' \<and> solver_vy vy0 t' < 0
            \<and> solver_y hs vy0 t' \<le> 0
            \<and> - solver_y hs vy0 t' < G / BETA ^ 2 / 2 ^ 13"
proof -
  let ?t1 = "newton_step hs vy0 t"
  let ?t2 = "newton_step hs vy0 ?t1"
  have A: "0 \<le> vy0 + G / BETA" using v G_pos BETA_pos by simp
  have nz: "solver_vy vy0 t \<noteq> 0" using d by simp
  have d1: "solver_vy vy0 ?t1 < 0" using step_descending [OF v h d] .
  have y1: "solver_y hs vy0 ?t1 \<le> 0" using step_residual_le [OF A nz] .
  have nz1: "solver_vy vy0 ?t1 \<noteq> 0" using d1 by simp
  have d2: "solver_vy vy0 ?t2 < 0" using step_descending [OF v h d1] .
  have y2: "solver_y hs vy0 ?t2 \<le> 0" using step_residual_le [OF A nz1] .
  have r2: "- solver_y hs vy0 ?t2 < G / BETA ^ 2" using step_contracts(2) [OF v h d1 y1] .
  from newton_contracts [OF v h d2 y2, of 13] obtain t' where
    t': "newton 13 hs vy0 ?t2 = Some t'" "solver_vy vy0 t' < 0" "solver_y hs vy0 t' \<le> 0"
        "- solver_y hs vy0 t' \<le> (- solver_y hs vy0 ?t2) / 2 ^ 13" by blast
  have "(- solver_y hs vy0 ?t2) / 2 ^ 13 < G / BETA ^ 2 / 2 ^ 13"
    using r2 by (simp add: divide_strict_right_mono)
  with t'(4) have b: "- solver_y hs vy0 t' < G / BETA ^ 2 / 2 ^ 13" by simp
  have e: "newton 15 hs vy0 t = newton 13 hs vy0 ?t2"
  proof -
    have n: "(15::nat) = Suc (Suc 13)" by simp
    show ?thesis unfolding n by (simp only: newton_Suc [OF nz] newton_Suc [OF nz1])
  qed
  have "0 < t'" using descending_pos [OF v t'(2)] .
  with t' b e show ?thesis by simp
qed

lemma residual_bound_value: "G / BETA ^ 2 / 2 ^ 13 < 0.00054"
  by (simp add: G_def BETA_def power2_eq_square)

section \<open>The loop is monotone in the launch speed\<close>

text \<open>
  Past the apex and at or below the landing plane, one step is monotone in its starting
  point; at a fixed positive starting point it is strictly monotone in the vertical launch
  speed. So the fifteenth iterate grows strictly with the launch speed, as long as the seed
  lies past the apex at the larger speed.
\<close>

lemma solver_vy_mono_v: "v \<le> v' \<Longrightarrow> solver_vy v t \<le> solver_vy v' t"
  by (simp add: solver_vy_def mult_right_mono)

lemma solver_vy_antimono_t:
  assumes "0 \<le> vy0 + G / BETA" and "t \<le> t'"
  shows "solver_vy vy0 t' \<le> solver_vy vy0 t"
proof -
  have "exp (- BETA * t') \<le> exp (- BETA * t)"
    using assms(2) BETA_pos by (simp add: mult_left_mono)
  then have "(vy0 + G / BETA) * exp (- BETA * t') \<le> (vy0 + G / BETA) * exp (- BETA * t)"
    using assms(1) by (rule mult_left_mono)
  then show ?thesis by (simp add: solver_vy_def)
qed

lemma step_mono_t:
  assumes A: "0 \<le> vy0 + G / BETA" and le: "t \<le> t'"
    and d: "solver_vy vy0 t < 0" and d': "solver_vy vy0 t' < 0"
    and y: "solver_y hs vy0 t \<le> 0"
  shows "newton_step hs vy0 t \<le> newton_step hs vy0 t'"
proof -
  let ?n = "newton_step hs vy0 t"
  have dd: "solver_vy vy0 t' \<le> solver_vy vy0 t" using solver_vy_antimono_t [OF A le] .
  have q: "1 \<le> solver_vy vy0 t' / solver_vy vy0 t"
    using dd d by (simp add: le_divide_eq)
  have "0 \<le> solver_y hs vy0 t * (1 - solver_vy vy0 t' / solver_vy vy0 t)"
    using y q by (intro mult_nonpos_nonpos) simp_all
  also have "\<dots> = solver_y hs vy0 t + solver_vy vy0 t' * (?n - t)"
    using d by (simp add: newton_step_def algebra_simps)
  also have "\<dots> \<le> (solver_y hs vy0 t' + solver_vy vy0 t' * (t - t'))
                    + solver_vy vy0 t' * (?n - t)"
    using tangent_le [OF A, of hs t t'] by simp
  also have "\<dots> = solver_vy vy0 t' * (?n - newton_step hs vy0 t')"
    using d' by (simp add: newton_step_def [of hs vy0 t'] algebra_simps)
  finally have "0 \<le> solver_vy vy0 t' * (?n - newton_step hs vy0 t')" .
  then have "?n - newton_step hs vy0 t' \<le> 0"
    using d' by (simp add: zero_le_mult_iff)
  then show ?thesis by simp
qed

lemma step_cross_v:
  "solver_y hs v t * solver_vy v' t - solver_y hs v' t * solver_vy v t
     = (v' - v) * (hs * exp (- BETA * t)
                   + (G / BETA ^ 2) * (1 - exp (- BETA * t) * (1 + BETA * t)))"
proof -
  have b: "BETA \<noteq> 0" using BETA_pos by simp
  show ?thesis
    unfolding solver_y_def solver_vy_def using b
    by (simp add: field_simps power2_eq_square)
qed

lemma step_mono_v:
  assumes t: "0 < t" and vv: "v < v'" and d': "solver_vy v' t < 0" and h: "0 \<le> hs"
  shows "newton_step hs v t < newton_step hs v' t"
proof -
  have d: "solver_vy v t < 0" using solver_vy_mono_v [of v v' t] vv d' by simp
  have "BETA * t \<noteq> 0" using t BETA_pos by simp
  then have "1 + BETA * t < exp (BETA * t)" by (rule exp_gt_add_one)
  then have "exp (- BETA * t) * (1 + BETA * t) < exp (- BETA * t) * exp (BETA * t)"
    by (intro mult_strict_left_mono) simp_all
  also have "\<dots> = 1" by (simp flip: exp_add)
  finally have k1: "0 < (G / BETA ^ 2) * (1 - exp (- BETA * t) * (1 + BETA * t))"
    using G_pos BETA_pos by simp
  have k2: "0 \<le> hs * exp (- BETA * t)" using h by simp
  have K: "0 < hs * exp (- BETA * t)
                   + (G / BETA ^ 2) * (1 - exp (- BETA * t) * (1 + BETA * t))"
    using k2 k1 by (rule add_nonneg_pos)
  have "0 < (v' - v) * (hs * exp (- BETA * t)
                   + (G / BETA ^ 2) * (1 - exp (- BETA * t) * (1 + BETA * t)))"
    using vv K by (intro mult_pos_pos) simp_all
  then have c: "0 < solver_y hs v t * solver_vy v' t - solver_y hs v' t * solver_vy v t"
    by (simp only: step_cross_v)
  have pp: "0 < solver_vy v t * solver_vy v' t" using d d' by (rule mult_neg_neg)
  have "newton_step hs v' t - newton_step hs v t
          = (solver_y hs v t * solver_vy v' t - solver_y hs v' t * solver_vy v t)
              / (solver_vy v t * solver_vy v' t)"
    using d d' by (simp add: newton_step_def field_simps)
  also have "0 < \<dots>" using c pp by (rule divide_pos_pos)
  finally show ?thesis by simp
qed

lemma newton_pair_mono:
  assumes v: "0 \<le> v" and vv: "v < v'" and h: "0 \<le> hs"
    and "s \<le> s'" and "solver_vy v s < 0" and "solver_y hs v s \<le> 0"
    and "solver_vy v' s' < 0"
  shows "\<exists>ta tb. newton n hs v s = Some ta \<and> newton n hs v' s' = Some tb
            \<and> ta \<le> tb \<and> (0 < n \<longrightarrow> ta < tb)"
  using assms(4-7)
proof (induction n arbitrary: s s')
  case 0
  then show ?case by simp
next
  case (Suc n)
  have v': "0 \<le> v'" using v vv by simp
  have A: "0 \<le> v + G / BETA" using v G_pos BETA_pos by simp
  have s'pos: "0 < s'" using descending_pos [OF v' Suc.prems(4)] .
  have dvs': "solver_vy v s' < 0"
    using solver_vy_mono_v [of v v' s'] vv Suc.prems(4) by simp
  have nz: "solver_vy v s \<noteq> 0" "solver_vy v' s' \<noteq> 0" using Suc.prems by simp_all
  have "newton_step hs v s \<le> newton_step hs v s'"
    using step_mono_t [OF A Suc.prems(1,2) dvs' Suc.prems(3)] .
  also have "\<dots> < newton_step hs v' s'"
    using step_mono_v [OF s'pos vv Suc.prems(4) h] .
  finally have lt: "newton_step hs v s < newton_step hs v' s'" .
  have 1: "solver_vy v (newton_step hs v s) < 0" using step_descending [OF v h Suc.prems(2)] .
  have 2: "solver_y hs v (newton_step hs v s) \<le> 0" using step_residual_le [OF A nz(1)] .
  have 3: "solver_vy v' (newton_step hs v' s') < 0" using step_descending [OF v' h Suc.prems(4)] .
  from Suc.IH [OF less_imp_le [OF lt] 1 2 3] obtain ta tb where
    r: "newton n hs v (newton_step hs v s) = Some ta"
       "newton n hs v' (newton_step hs v' s') = Some tb" "ta \<le> tb" "0 < n \<longrightarrow> ta < tb"
    by blast
  have "ta < tb"
  proof (cases n)
    case 0
    then show ?thesis using r(1,2) lt by simp
  next
    case (Suc m)
    then show ?thesis using r(4) by simp
  qed
  then show ?case using r(1,2) nz by (simp add: newton_Suc del: newton.simps)
qed

lemma newton_seed_mono:
  assumes v: "0 \<le> v" and vv: "v < v'" and h: "0 \<le> hs"
    and s: "0 < s" and d': "solver_vy v' s < 0"
  shows "\<exists>ta tb. newton (Suc n) hs v s = Some ta \<and> newton (Suc n) hs v' s = Some tb
            \<and> 0 < ta \<and> ta < tb"
proof -
  have v': "0 \<le> v'" using v vv by simp
  have A: "0 \<le> v + G / BETA" using v G_pos BETA_pos by simp
  have d: "solver_vy v s < 0" using solver_vy_mono_v [of v v' s] vv d' by simp
  have nz: "solver_vy v s \<noteq> 0" "solver_vy v' s \<noteq> 0" using d d' by simp_all
  have lt: "newton_step hs v s < newton_step hs v' s"
    using step_mono_v [OF s vv d' h] .
  have 1: "solver_vy v (newton_step hs v s) < 0" using step_descending [OF v h d] .
  have 2: "solver_y hs v (newton_step hs v s) \<le> 0" using step_residual_le [OF A nz(1)] .
  have 3: "solver_vy v' (newton_step hs v' s) < 0" using step_descending [OF v' h d'] .
  from newton_pair_mono [OF v vv h less_imp_le [OF lt] 1 2 3, of n] obtain ta tb where
    r: "newton n hs v (newton_step hs v s) = Some ta"
       "newton n hs v' (newton_step hs v' s) = Some tb" "ta \<le> tb" "0 < n \<longrightarrow> ta < tb"
    by blast
  have "ta < tb"
  proof (cases n)
    case 0
    then show ?thesis using r(1,2) lt by simp
  next
    case (Suc m)
    then show ?thesis using r(4) by simp
  qed
  moreover have "0 < ta"
  proof -
    from newton_descending [OF v h 1, of n] r(1) have "solver_vy v ta < 0" by simp
    then show ?thesis by (rule descending_pos [OF v])
  qed
  ultimately show ?thesis using r(1,2) nz by (simp add: newton_Suc del: newton.simps)
qed

lemma drag_range_strict_mono:
  assumes "0 < vxa" and "vxa < vxb" and "0 < ta" and "ta < tb"
  shows "(vxa / BETA) * (1 - exp (- BETA * ta)) < (vxb / BETA) * (1 - exp (- BETA * tb))"
proof (rule mult_strict_mono)
  show "vxa / BETA < vxb / BETA" using assms(2) BETA_pos by (simp add: divide_strict_right_mono)
  show "1 - exp (- BETA * ta) < 1 - exp (- BETA * tb)" using assms(4) BETA_pos by simp
  show "0 < vxb / BETA" using assms(1,2) BETA_pos by simp
  show "0 \<le> 1 - exp (- BETA * ta)" using assms(3) BETA_pos by (simp add: mult_nonneg_nonneg)
qed

lemma newton_residual_strict:
  assumes A: "0 < vy0 + G / BETA" and "newton (Suc n) hs vy0 t = Some t'"
    and "solver_y hs vy0 t \<noteq> 0"
  shows "solver_y hs vy0 t' < 0"
  using assms(2,3)
proof (induction n arbitrary: t)
  case 0
  then have nz: "solver_vy vy0 t \<noteq> 0" and t': "t' = newton_step hs vy0 t"
    by (auto simp: Let_def newton_step_def split: if_splits)
  have "newton_step hs vy0 t \<noteq> t" using nz 0(2) by (simp add: newton_step_def)
  from tangent_less [OF A this, of hs] step_tangent_zero [OF nz, of hs]
  show ?case unfolding t' by simp
next
  case (Suc n)
  from Suc.prems have nz: "solver_vy vy0 t \<noteq> 0"
    by (auto simp: Let_def split: if_splits)
  have ne: "newton_step hs vy0 t \<noteq> t" using nz Suc.prems(2) by (simp add: newton_step_def)
  have "solver_y hs vy0 (newton_step hs vy0 t) < 0"
    using tangent_less [OF A ne, of hs] step_tangent_zero [OF nz, of hs] by simp
  then have y1: "solver_y hs vy0 (newton_step hs vy0 t) \<noteq> 0" by simp
  from Suc.prems(1) nz have "newton (Suc n) hs vy0 (newton_step hs vy0 t) = Some t'"
    by (simp add: newton_Suc del: newton.simps)
  from Suc.IH [OF this y1] show ?case .
qed

section \<open>Scenario 1: the closed forms\<close>

text \<open>
  C5. For scenario 1 and every angle and speed, \<open>solveScenario\<close> returns the no-drag
  closed forms: \<open>time = 2 v0 sin \<theta> / g\<close>, \<open>range = v0 cos \<theta> * time\<close>,
  \<open>height = (v0 sin \<theta>)\<^sup>2 / (2 g)\<close>, and \<open>vFinal\<close> is \<open>v0\<close> itself.
\<close>

theorem C5_nodrag_closed_forms:
  "solveScenario 1 angleDeg v0 =
     \<lparr>range_m = Some (v0 * cos ((angleDeg * pi) / 180)
                        * (2 * v0 * sin ((angleDeg * pi) / 180) / G)),
      height = Some ((v0 * sin ((angleDeg * pi) / 180)) ^ 2 / (2 * G)),
      time = Some (2 * v0 * sin ((angleDeg * pi) / 180) / G),
      vFinal = Some v0\<rparr>"
  by (simp add: solveScenario_def Let_def power2_eq_square)

lemma sqrt2_bounds: "1.4 < sqrt (2::real)" "sqrt (2::real) < 1.42"
  by (rule real_less_rsqrt, simp add: power2_eq_square)
     (rule real_less_lsqrt, simp_all add: power2_eq_square)

lemma solve_1_45_5:
  "solveScenario 1 45 5 =
     \<lparr>range_m = Some (25 / G), height = Some (25 / (4 * G)),
      time = Some (5 * sqrt 2 / G), vFinal = Some 5\<rparr>"
  by (simp add: solveScenario_def Let_def sin_45 cos_45 G_def)

text \<open>
  C4, as stated: \<open>solveScenario(1, 45, 5)\<close> has range 1.80 within 0.01. The range is
  \<open>25 / g\<close>, about 2.548.
\<close>

theorem C4_range_counterexample:
  "range_m (solveScenario 1 45 5) = Some (25 / G) \<and> \<not> \<bar>25 / G - 1.80\<bar> \<le> 0.01"
  by (simp add: solve_1_45_5 G_def)

text \<open>
  C4, amended: \<open>solveScenario(1, 45, 5)\<close> returns time 0.72, range 2.55 and height
  0.64, each within 0.01, and \<open>vFinal = 5\<close>.
\<close>

theorem C4_concrete_values:
  "time (solveScenario 1 45 5) = Some (5 * sqrt 2 / G) \<and> \<bar>5 * sqrt 2 / G - 0.72\<bar> \<le> 0.01
   \<and> range_m (solveScenario 1 45 5) = Some (25 / G) \<and> \<bar>25 / G - 2.55\<bar> \<le> 0.01
   \<and> height (solveScenario 1 45 5) = Some (25 / (4 * G)) \<and> \<bar>25 / (4 * G) - 0.64\<bar> \<le> 0.01
   \<and> vFinal (solveScenario 1 45 5) = Some 5"
proof -
  have t: "\<bar>5 * sqrt 2 / G - 0.72\<bar> \<le> 0.01"
    using sqrt2_bounds unfolding abs_le_iff G_def by (simp add: field_simps)
  have r: "\<bar>25 / G - 2.55\<bar> \<le> 0.01"
    by (simp add: G_def)
  have h: "\<bar>25 / (4 * G) - 0.64\<bar> \<le> 0.01"
    by (simp add: G_def)
  show ?thesis using t r h by (simp add: solve_1_45_5)
qed

section \<open>Scenario identifiers\<close>

text \<open>
  C10. \<open>solveScenario\<close> validates no identifier and signals no error: every identifier
  other than 1 takes the linear-drag branch, every identifier other than 3 uses launch
  height 0 and the seed 0.36, so an identifier that is neither 1 nor 3 gives the result
  of scenario 2.
\<close>

theorem C10_unvalidated_id:
  assumes "scenarioId \<noteq> 1" and "scenarioId \<noteq> 3"
  shows "solveScenario scenarioId angleDeg v0 = solveScenario 2 angleDeg v0
       \<and> time (solveScenario scenarioId angleDeg v0)
           = newton 15 0 (v0 * sin ((angleDeg * pi) / 180)) 0.36
       \<and> height (solveScenario scenarioId angleDeg v0)
           = Some (maxHeight 0 (v0 * sin ((angleDeg * pi) / 180)))"
  using assms by (simp add: solveScenario_def Let_def)

theorem C10_unvalidated_id_witness:
  "solveScenario 4 30 2.5 = solveScenario 2 30 2.5
   \<and> solveScenario 0 30 2.5 = solveScenario 2 30 2.5"
  using C10_unvalidated_id [of 4 30 "2.5"] C10_unvalidated_id [of 0 30 "2.5"] by simp

section \<open>Angles and square roots\<close>

lemma sin_deg_pos:
  assumes "0 < angleDeg" and "angleDeg < 90"
  shows "0 < sin ((angleDeg * pi) / 180)"
proof (rule sin_gt_zero)
  show "0 < (angleDeg * pi) / 180" using assms(1) by simp
  have "(angleDeg * pi) / 180 < (90 * pi) / 180"
    using assms(2) by (simp add: divide_strict_right_mono)
  also have "\<dots> < pi" by simp
  finally show "(angleDeg * pi) / 180 < pi" .
qed

lemma cos_deg_pos:
  assumes "0 < angleDeg" and "angleDeg < 90"
  shows "0 < cos ((angleDeg * pi) / 180)"
proof (rule cos_gt_zero)
  show "0 < (angleDeg * pi) / 180" using assms(1) by simp
  have "(angleDeg * pi) / 180 < (90 * pi) / 180"
    using assms(2) by (simp add: divide_strict_right_mono)
  also have "\<dots> = pi / 2" by simp
  finally show "(angleDeg * pi) / 180 < pi / 2" .
qed

lemma sqrt3_bounds: "1.732 < sqrt (3::real)" "sqrt (3::real) < 1.74"
  by (rule real_less_rsqrt, simp add: power2_eq_square)
     (rule real_less_lsqrt, simp_all add: power2_eq_square)

lemma exp_m054_lower: "0.865 ^ 4 \<le> exp (- 0.54 :: real)"
proof -
  have "(0.865::real) \<le> exp (- 0.135)"
    using exp_ge_add_one_self [of "- 0.135 :: real"] by simp
  then have "(0.865::real) ^ 4 \<le> exp (- 0.135) ^ 4"
    by (intro power_mono) auto
  also have "\<dots> = exp (of_nat 4 * (- 0.135 :: real))"
    by (simp only: exp_of_nat_mult)
  also have "\<dots> = exp (- 0.54)" by simp
  finally show ?thesis .
qed

section \<open>Where the fixed seed leads\<close>

text \<open>
  The seed lies past the apex whenever the launch is slower than free fall over the seed
  time, \<open>vy0 < g * seed\<close>. (The exact bound is \<open>vy0 < (g / beta) (exp (beta * seed) - 1)\<close>.)
\<close>

lemma seed_past_apex:
  assumes "vy0 < G * s"
  shows "solver_vy vy0 s < 0"
proof -
  have "vy0 + G / BETA < (G / BETA) * (1 + BETA * s)"
    using assms BETA_pos by (simp add: field_simps)
  also have "\<dots> \<le> (G / BETA) * exp (BETA * s)"
    using G_pos BETA_pos by (intro mult_left_mono exp_ge_add_one_self) simp
  finally have "vy0 + G / BETA < (G / BETA) * exp (BETA * s)" .
  then have "(vy0 + G / BETA) * exp (- BETA * s)
               < (G / BETA) * exp (BETA * s) * exp (- BETA * s)"
    by (rule mult_strict_right_mono) simp
  also have "\<dots> = G / BETA"
    by (simp add: mult.assoc flip: exp_add)
  finally show ?thesis by (simp add: solver_vy_def)
qed

text \<open>
  When the seed lies past the apex, the fifteen steps never divide by zero and end at a
  positive time at which the droplet is falling.
\<close>

lemma solver_positive_root:
  assumes "sid \<noteq> 1" and "0 \<le> v0 * sin ((angleDeg * pi) / 180)"
    and "solver_vy (v0 * sin ((angleDeg * pi) / 180)) (if sid = 3 then 0.65 else 0.36) < 0"
  shows "\<exists>t. time (solveScenario sid angleDeg v0) = Some t \<and> 0 < t
            \<and> solver_vy (v0 * sin ((angleDeg * pi) / 180)) t < 0"
proof -
  let ?vy0 = "v0 * sin ((angleDeg * pi) / 180)"
  have "0 \<le> (if sid = 3 then 1.0 else 0.0 :: real)" by simp
  from newton_descending [OF assms(2) this assms(3), of 15]
  obtain t where
    t: "newton 15 (if sid = 3 then 1.0 else 0.0) ?vy0 (if sid = 3 then 0.65 else 0.36) = Some t"
       "solver_vy ?vy0 t < 0" by blast
  have "0 < t" using descending_pos [OF assms(2) t(2)] .
  with t show ?thesis using assms(1) by (simp add: solveScenario_def Let_def)
qed

lemma drag_time_residual:
  assumes "sid \<noteq> 1" and "0 \<le> v0 * sin ((angleDeg * pi) / 180)"
    and "time (solveScenario sid angleDeg v0) = Some t"
  shows "solver_y (if sid = 3 then 1.0 else 0.0) (v0 * sin ((angleDeg * pi) / 180)) t \<le> 0"
proof -
  have A: "0 \<le> v0 * sin ((angleDeg * pi) / 180) + G / BETA"
    using assms(2) G_pos BETA_pos by simp
  have "newton (Suc 14) (if sid = 3 then 1.0 else 0.0) (v0 * sin ((angleDeg * pi) / 180))
          (if sid = 3 then 0.65 else 0.36) = Some t"
    using assms(1,3) by (simp add: solveScenario_def Let_def)
  from newton_residual_le [OF A this] show ?thesis .
qed

text \<open>Scenario 2 at 60 degrees and 6 m/s: the seed 0.36 lies before the apex.\<close>

lemma vy_seed_60_6: "0 < solver_vy (6 * sin ((60 * pi) / 180)) 0.36"
proof -
  have A: "11.736 < 3 * sqrt 3 + G / BETA"
    using sqrt3_bounds(1) by (simp add: G_def BETA_def)
  have E: "(0.5598::real) < exp (- 0.54)"
    using exp_m054_lower by (simp add: power_numeral_reduce)
  have "6.54 < (11.736::real) * 0.5598" by simp
  also have "\<dots> < (3 * sqrt 3 + G / BETA) * exp (- 0.54)"
  proof (rule mult_strict_mono [OF A E])
    show "0 < 3 * sqrt 3 + G / BETA" using G_pos BETA_pos by (simp add: add_nonneg_pos)
  qed simp
  finally show ?thesis
    by (simp add: solver_vy_def sin_60 G_def BETA_def)
qed

lemma spurious_root_60_6:
  "\<exists>t. newton 15 0 (6 * sin ((60 * pi) / 180)) 0.36 = Some t \<and> t < 0"
proof -
  have v: "0 < 6 * sin ((60 * pi) / 180)" by (simp add: sin_60)
  from newton_ascending [OF _ v vy_seed_60_6, of 0 15] show ?thesis by auto
qed

lemma positive_root_60_4:
  "\<exists>t. time (solveScenario 2 60 4) = Some t \<and> 0 < t"
proof -
  have a: "(60 * pi) / 180 = pi / 3" by simp
  have v: "4 * sin ((60 * pi) / 180) = 2 * sqrt 3" unfolding a sin_60 by simp
  have "2 * sqrt 3 < G * 0.36" using sqrt3_bounds(2) by (simp add: G_def)
  then have "solver_vy (2 * sqrt 3) 0.36 < 0" by (rule seed_past_apex)
  then have d: "solver_vy (4 * sin ((60 * pi) / 180)) (if (2::int) = 3 then 0.65 else 0.36) < 0"
    unfolding v by simp
  have "0 \<le> 4 * sin ((60 * pi) / 180)" unfolding v by simp
  from solver_positive_root [OF _ this d] show ?thesis by auto
qed

lemma finite_time_3_30:
  "\<exists>t. time (solveScenario 3 30 2.5) = Some t \<and> 0 < t
       \<and> solver_vy (2.5 * sin ((30 * pi) / 180)) t < 0"
proof -
  have a: "(30 * pi) / 180 = pi / 6" by simp
  have v: "2.5 * sin ((30 * pi) / 180) = (1.25::real)" unfolding a sin_30 by simp
  have "(1.25::real) < G * 0.65" by (simp add: G_def)
  then have "solver_vy 1.25 0.65 < 0" by (rule seed_past_apex)
  then have d: "solver_vy (2.5 * sin ((30 * pi) / 180)) (if (3::int) = 3 then 0.65 else 0.36) < 0"
    unfolding v by simp
  have "0 \<le> 2.5 * sin ((30 * pi) / 180)" unfolding v by simp
  from solver_positive_root [OF _ this d] show ?thesis by auto
qed

lemma drag_range_sign:
  assumes "0 < vx0"
  shows "(vx0 / BETA) * (1 - exp (- BETA * t)) < 0 \<longleftrightarrow> t < 0"
    and "0 < (vx0 / BETA) * (1 - exp (- BETA * t)) \<longleftrightarrow> 0 < t"
proof -
  have c: "0 < vx0 / BETA" using assms BETA_pos by simp
  have n: "1 - exp (- BETA * t) < 0 \<longleftrightarrow> t < 0"
    using BETA_pos by (simp add: mult_less_0_iff)
  have p: "0 < 1 - exp (- BETA * t) \<longleftrightarrow> 0 < t"
    using BETA_pos by (simp add: zero_less_mult_iff)
  have kn: "c * X < 0 \<longleftrightarrow> X < 0" if "0 < c" for c X :: real
    using that by (auto simp: mult_less_0_iff)
  have kp: "0 < c * X \<longleftrightarrow> 0 < X" if "0 < c" for c X :: real
    using that by (auto simp: zero_less_mult_iff)
  show "(vx0 / BETA) * (1 - exp (- BETA * t)) < 0 \<longleftrightarrow> t < 0"
    unfolding kn [OF c] by (rule n)
  show "0 < (vx0 / BETA) * (1 - exp (- BETA * t)) \<longleftrightarrow> 0 < t"
    unfolding kp [OF c] by (rule p)
qed

text \<open>
  C3. For every scenario in 1, 2, 3, every angle strictly between 0 and 90 degrees and
  every positive speed, \<open>solveScenario\<close> returns a positive time and a non-negative range.
  The code at scenario 2, 60 degrees, 6 m/s: the fifteen steps end left of \<open>t = 0\<close>, and
  both the time and the range are negative.
\<close>

theorem C3_spurious_root:
  "\<exists>t r. time (solveScenario 2 60 6) = Some t \<and> t < 0
        \<and> range_m (solveScenario 2 60 6) = Some r \<and> r < 0"
proof -
  from spurious_root_60_6 obtain t where
    t: "newton 15 0 (6 * sin ((60 * pi) / 180)) 0.36 = Some t" "t < 0" by blast
  have "(6 * cos ((60 * pi) / 180) / BETA) * (1 - exp (- BETA * t)) < 0"
    using drag_range_sign(1) [of "6 * cos ((60 * pi) / 180)" t] t(2) by (simp add: cos_60)
  then show ?thesis using t by (simp add: solveScenario_def Let_def)
qed

section \<open>The zero divisor\<close>

text \<open>
  C8. The loop updates \<open>t\<close> by \<open>t - y / vy_t\<close> with no guard, and a zero divisor is
  reachable: at 30 degrees and the speed \<open>v0 = 2 (g / beta) (exp (0.36 beta) - 1)\<close> the
  first step has \<open>vy_t = 0\<close>, and the returned time, range and final speed are
  non-finite instead of the previous estimate.
\<close>

theorem C8_zero_divisor_reachable:
  "\<exists>angleDeg v0. 0 < angleDeg \<and> angleDeg < 90 \<and> 0 < v0
     \<and> solver_vy (v0 * sin ((angleDeg * pi) / 180)) 0.36 = 0
     \<and> time (solveScenario 2 angleDeg v0) = None
     \<and> range_m (solveScenario 2 angleDeg v0) = None
     \<and> vFinal (solveScenario 2 angleDeg v0) = None"
proof -
  define v0 where "v0 = 2 * ((G / BETA) * (exp (BETA * 0.36) - 1))"
  have "1 < exp (BETA * 0.36)" using BETA_pos by simp
  then have "0 < (G / BETA) * (exp (BETA * 0.36) - 1)"
    using G_pos BETA_pos by simp
  then have pos: "0 < v0" by (simp add: v0_def)
  have a: "(30 * pi) / 180 = pi / 6" by simp
  have vy: "v0 * sin ((30 * pi) / 180) = (G / BETA) * (exp (BETA * 0.36) - 1)"
    unfolding a sin_30 v0_def by simp
  have "((G / BETA) * (exp (BETA * 0.36) - 1) + G / BETA) * exp (- BETA * 0.36)
        = (G / BETA) * (exp (BETA * 0.36) * exp (- BETA * 0.36))"
    by (simp add: algebra_simps)
  also have "\<dots> = G / BETA"
    by (simp flip: exp_add)
  finally have z: "solver_vy (v0 * sin ((30 * pi) / 180)) 0.36 = 0"
    unfolding vy solver_vy_def by simp
  then have n: "newton 15 0 (v0 * sin ((30 * pi) / 180)) 0.36 = None"
    using newton_Suc_zero_divisor [of _ _ 14] by simp
  have "time (solveScenario 2 30 v0) = None \<and> range_m (solveScenario 2 30 v0) = None
        \<and> vFinal (solveScenario 2 30 v0) = None"
    using n by (simp add: solveScenario_def Let_def)
  with z pos show ?thesis
    by (intro exI [of _ 30] exI [of _ v0]) simp
qed

section \<open>The evaluator\<close>

lemma find_configs:
  "find (\<lambda>c. cfg_id c = sid) configs =
     (if sid = 1 then Some (configs ! 0) else if sid = 2 then Some (configs ! 1)
      else if sid = 3 then Some (configs ! 2) else None)"
  by (simp add: configs_def)

text \<open>
  C7. For an elapsed time \<open>dt \<ge> 0\<close> and a particle of scenario 1, 2 or 3,
  \<open>calculatePhysics\<close> returns a state, and its \<open>impact\<close> flag is set exactly when
  \<open>physY = h0 + dy\<close> is at most 0.45 and \<open>vy\<close> is negative. For every particle and
  every clock, whatever state is returned obeys the same rule; so no impact is reported
  while \<open>physY > 0.45\<close>, whatever the sign of \<open>vy\<close>, and none while \<open>vy \<ge> 0\<close>. The
  particle is marked dead exactly on impact.
\<close>

theorem C7_impact_policy:
  "(0 \<le> (now - startTime particle) / 1000 \<and> scenario particle \<in> {1, 2, 3} \<longrightarrow>
      (\<exists>particle' st. calculatePhysics particle now = Inr (particle', Some st)
         \<and> (impact st \<longleftrightarrow>
              h0 particle + phys_dy particle ((now - startTime particle) / 1000) \<le> 0.45
              \<and> phys_vy particle ((now - startTime particle) / 1000) < 0)))
   \<and> (\<forall>particle' st. calculatePhysics particle now = Inr (particle', Some st) \<longrightarrow>
         (impact st \<longleftrightarrow>
            h0 particle + phys_dy particle ((now - startTime particle) / 1000) \<le> 0.45
            \<and> phys_vy particle ((now - startTime particle) / 1000) < 0)
         \<and> (0.45 < h0 particle + phys_dy particle ((now - startTime particle) / 1000)
              \<longrightarrow> \<not> impact st)
         \<and> (0 \<le> phys_vy particle ((now - startTime particle) / 1000) \<longrightarrow> \<not> impact st)
         \<and> (isDead particle' \<longleftrightarrow> impact st \<or> isDead particle))"
proof (intro conjI impI allI)
  assume "0 \<le> (now - startTime particle) / 1000 \<and> scenario particle \<in> {1, 2, 3}"
  then show "\<exists>particle' st. calculatePhysics particle now = Inr (particle', Some st)
         \<and> (impact st \<longleftrightarrow>
              h0 particle + phys_dy particle ((now - startTime particle) / 1000) \<le> 0.45
              \<and> phys_vy particle ((now - startTime particle) / 1000) < 0)"
    by (auto simp: calculatePhysics_def Let_def find_configs)
next
  fix particle' st
  assume "calculatePhysics particle now = Inr (particle', Some st)"
  then show "impact st \<longleftrightarrow>
            h0 particle + phys_dy particle ((now - startTime particle) / 1000) \<le> 0.45
            \<and> phys_vy particle ((now - startTime particle) / 1000) < 0"
    and "0.45 < h0 particle + phys_dy particle ((now - startTime particle) / 1000)
              \<Longrightarrow> \<not> impact st"
    and "0 \<le> phys_vy particle ((now - startTime particle) / 1000) \<Longrightarrow> \<not> impact st"
    and "isDead particle' \<longleftrightarrow> impact st \<or> isDead particle"
    by (auto simp: calculatePhysics_def Let_def split: if_splits option.splits)
qed

theorem C7_impact_policy_witness:
  "\<exists>p' st. calculatePhysics (jitter_free 1 0 1 0 (configs ! 0)) 1000 = Inr (p', Some st)
     \<and> impact st \<and> isDead p'
     \<and> h0 (jitter_free 1 0 1 0 (configs ! 0))
         + phys_dy (jitter_free 1 0 1 0 (configs ! 0)) ((1000 - 0) / 1000) \<le> 0.45
     \<and> phys_vy (jitter_free 1 0 1 0 (configs ! 0)) ((1000 - 0) / 1000) < 0"
proof -
  let ?p = "jitter_free 1 0 1 0 (configs ! 0)"
  have s: "startTime ?p = 0" "scenario ?p = 1" by (simp_all add: jitter_free_def)
  have c: "h0 ?p + phys_dy ?p ((1000 - 0) / 1000) \<le> 0.45
           \<and> phys_vy ?p ((1000 - 0) / 1000) < 0"
    by (simp add: jitter_free_def phys_dy_def phys_vy_def configs_def G_def)
  note T = C7_impact_policy [of 1000 ?p]
  from T s obtain p' st where r: "calculatePhysics ?p 1000 = Inr (p', Some st)" by auto
  from T r have "(impact st \<longleftrightarrow>
            h0 ?p + phys_dy ?p ((1000 - startTime ?p) / 1000) \<le> 0.45
            \<and> phys_vy ?p ((1000 - startTime ?p) / 1000) < 0)
         \<and> (isDead p' \<longleftrightarrow> impact st \<or> isDead ?p)" by blast
  with c s have "impact st \<and> isDead p'" by simp
  with r c show ?thesis by blast
qed

section \<open>The solver against the evaluator\<close>

text \<open>
  The two sets of formulas agree: the solver's range is the evaluator's \<open>dx\<close> at the
  solver's time, and in the drag scenarios the evaluator's \<open>dy\<close> and \<open>vy\<close> are the
  solver's \<open>y\<close> (taken from launch height 0) and \<open>vy_t\<close>.
\<close>

lemma solver_range_is_evaluator_dx:
  "range_m (solveScenario sid angleDeg v0)
     = map_option (phys_dx (jitter_free sid angleDeg v0 start cfg))
         (time (solveScenario sid angleDeg v0))"
  by (cases "newton 15 (if sid = 3 then 1.0 else 0.0) (v0 * sin ((angleDeg * pi) / 180))
         (if sid = 3 then 0.65 else 0.36)")
     (simp_all add: solveScenario_def Let_def phys_dx_def jitter_free_def)

lemma solver_y_shift: "solver_y hs vy0 t = hs + solver_y 0 vy0 t"
  by (simp add: solver_y_def)

lemma phys_dy_drag:
  "sid \<noteq> 1 \<Longrightarrow>
     phys_dy (jitter_free sid angleDeg v0 start cfg) t
       = solver_y 0 (v0 * sin ((angleDeg * pi) / 180)) t"
  by (simp add: phys_dy_def jitter_free_def solver_y_def)

lemma phys_vy_drag:
  "sid \<noteq> 1 \<Longrightarrow>
     phys_vy (jitter_free sid angleDeg v0 start cfg) t
       = solver_vy (v0 * sin ((angleDeg * pi) / 180)) t"
  by (simp add: phys_vy_def jitter_free_def solver_vy_def)

lemma phys_dy_nodrag_landing:
  "phys_dy (jitter_free 1 angleDeg v0 start cfg)
     (2 * (v0 * sin ((angleDeg * pi) / 180)) / G) = 0"
  using G_pos by (simp add: phys_dy_def jitter_free_def power2_eq_square field_simps)

text \<open>
  In scenario 1 the two agree exactly: at the solver's time the evaluator reports an impact
  at the release height 0.45, at horizontal distance equal to the solver's range.
\<close>

lemma scenario1_cross_consistent:
  assumes "0 < angleDeg" and "angleDeg < 90" and "0 < v0"
  shows "\<exists>t r p' st. time (solveScenario 1 angleDeg v0) = Some t
           \<and> range_m (solveScenario 1 angleDeg v0) = Some r
           \<and> calculatePhysics (jitter_free 1 angleDeg v0 start (configs ! 0)) (start + 1000 * t)
                 = Inr (p', Some st)
           \<and> impact st \<and> physX st = r \<and> physY st = 0.45"
proof -
  let ?s = "sin ((angleDeg * pi) / 180)" and ?c = "cos ((angleDeg * pi) / 180)"
  let ?t = "2 * (v0 * ?s) / G"
  let ?p = "jitter_free 1 angleDeg v0 start (configs ! 0)"
  have s: "0 < v0 * ?s" using sin_deg_pos [OF assms(1,2)] assms(3) by simp
  have c: "0 < v0 * ?c" using cos_deg_pos [OF assms(1,2)] assms(3) by simp
  have t: "0 < ?t" using s G_pos by simp
  have dy: "phys_dy ?p ?t = 0" by (rule phys_dy_nodrag_landing)
  have vy: "phys_vy ?p ?t < 0"
    using s G_pos by (simp add: phys_vy_def jitter_free_def)
  have dxv: "phys_dx ?p ?t = v0 * ?c * ?t"
    by (simp add: phys_dx_def jitter_free_def)
  have "0 < v0 * ?c * ?t" using c t by (rule mult_pos_pos)
  then have dx: "\<bar>phys_dx ?p ?t\<bar> = v0 * ?c * ?t"
    unfolding dxv by (rule abs_of_pos)
  have f: "startTime ?p = start" "scenario ?p = 1" "h0 ?p = 0.45"
    by (simp_all add: jitter_free_def configs_def)
  have "\<exists>p' st. calculatePhysics ?p (start + 1000 * ?t) = Inr (p', Some st)
           \<and> impact st \<and> physX st = v0 * ?c * ?t \<and> physY st = 0.45"
    using dy vy dx t f by (simp add: calculatePhysics_def Let_def find_configs)
  then show ?thesis by (simp add: solveScenario_def Let_def)
qed

text \<open>
  C1. For every scenario, angle in (0, 90) and positive speed, the jitter-free particle
  evaluated at the solver's time is at the solver's impact position. The code at
  scenario 2, 60 degrees, 6 m/s: the solver's time is negative, and at that time the
  evaluator returns \<open>null\<close>, no position at all.
\<close>

theorem C1_evaluator_null_at_solver_time:
  "\<exists>t. time (solveScenario 2 60 6) = Some t \<and> t < 0
     \<and> calculatePhysics (jitter_free 2 60 6 start (configs ! 1)) (start + 1000 * t)
         = Inr (jitter_free 2 60 6 start (configs ! 1), None)"
proof -
  from spurious_root_60_6 obtain t where
    t: "newton 15 0 (6 * sin ((60 * pi) / 180)) 0.36 = Some t" "t < 0" by blast
  have "time (solveScenario 2 60 6) = Some t"
    using t(1) by (simp add: solveScenario_def Let_def)
  moreover have "calculatePhysics (jitter_free 2 60 6 start (configs ! 1)) (start + 1000 * t)
         = Inr (jitter_free 2 60 6 start (configs ! 1), None)"
    using t(2) by (simp add: calculatePhysics_def Let_def jitter_free_def)
  ultimately show ?thesis using t(2) by blast
qed

text \<open>
  Scenario 3 where the solver converges (30 degrees, 2.5 m/s): the solver's flight ends
  on the plane 1 m below the nozzle, so at the solver's time the evaluator's particle is
  at height 0 or lower, below its own impact plane at 0.45, and the state it returns is
  an impact pinned to 0.45.
\<close>

lemma scenario3_below_impact_plane:
  "\<exists>t p' st. time (solveScenario 3 30 2.5) = Some t
     \<and> calculatePhysics (jitter_free 3 30 2.5 0 (configs ! 2)) (1000 * t) = Inr (p', Some st)
     \<and> h0 (jitter_free 3 30 2.5 0 (configs ! 2))
         + phys_dy (jitter_free 3 30 2.5 0 (configs ! 2)) t \<le> 0
     \<and> impact st \<and> physY st = 0.45"
proof -
  let ?p = "jitter_free 3 30 2.5 0 (configs ! 2)"
  from finite_time_3_30 obtain t where
    t: "time (solveScenario 3 30 2.5) = Some t" "0 < t"
       "solver_vy (2.5 * sin ((30 * pi) / 180)) t < 0" by blast
  have a: "(30 * pi) / 180 = pi / 6" by simp
  have v: "0 \<le> 2.5 * sin ((30 * pi) / 180)" unfolding a sin_30 by simp
  have "solver_y 1 (2.5 * sin ((30 * pi) / 180)) t \<le> 0"
    using drag_time_residual [OF _ v t(1)] by simp
  then have y: "h0 ?p + phys_dy ?p t \<le> 0"
    using phys_dy_drag [of 3 30 "2.5" 0 "configs ! 2" t]
      solver_y_shift [of 1 "2.5 * sin ((30 * pi) / 180)" t]
    by (simp add: jitter_free_def configs_def)
  have vy: "phys_vy ?p t < 0"
    using phys_vy_drag [of 3 30 "2.5" 0 "configs ! 2" t] t(3) by simp
  have s: "startTime ?p = 0" "scenario ?p = 3" by (simp_all add: jitter_free_def)
  have "\<exists>p' st. calculatePhysics ?p (1000 * t) = Inr (p', Some st)
           \<and> impact st \<and> physY st = 0.45"
    using y vy t(2) s by (simp add: calculatePhysics_def Let_def find_configs)
  with t(1) y show ?thesis by blast
qed

section \<open>Where the solver's flight ends\<close>

lemma y_seed_2_30: "solver_y 0 (2.5 * sin ((30 * pi) / 180)) 0.36 < 0"
proof -
  have a: "(30 * pi) / 180 = pi / 6" by simp
  have v: "2.5 * sin ((30 * pi) / 180) = (1.25::real)" unfolding a sin_30 by simp
  have E: "(0.5598::real) < exp (- 0.54)"
    using exp_m054_lower by (simp add: power_numeral_reduce)
  then have "1 - exp (- 0.54 :: real) < 0.4402" by simp
  then have "(7.79 / 1.5) * (1 - exp (- 0.54 :: real)) < (7.79 / 1.5) * 0.4402"
    by (intro mult_strict_left_mono) simp_all
  also have "\<dots> < (2.3544::real)" by simp
  finally show ?thesis
    unfolding v by (simp add: solver_y_def G_def BETA_def)
qed

lemma finite_time_2_30:
  "\<exists>t. time (solveScenario 2 30 2.5) = Some t \<and> 0 < t"
proof -
  have a: "(30 * pi) / 180 = pi / 6" by simp
  have v: "2.5 * sin ((30 * pi) / 180) = (1.25::real)" unfolding a sin_30 by simp
  have "(1.25::real) < G * 0.36" by (simp add: G_def)
  then have "solver_vy 1.25 0.36 < 0" by (rule seed_past_apex)
  then have d: "solver_vy (2.5 * sin ((30 * pi) / 180)) (if (2::int) = 3 then 0.65 else 0.36) < 0"
    unfolding v by simp
  have "0 \<le> 2.5 * sin ((30 * pi) / 180)" unfolding v by simp
  from solver_positive_root [OF _ this d] show ?thesis by auto
qed

text \<open>
  C2, as stated: in all three scenarios the returned time is the duration of the flight
  until the droplet is back at its release height, \<open>dy = 0\<close> at that time. Three concrete
  inputs: in scenario 3 at 30 degrees and 2.5 m/s the time is finite and \<open>dy\<close> is at most
  \<open>-1\<close> there; in scenario 2 at 30 degrees and 2.5 m/s the time is finite and \<open>dy\<close>
  is not 0 there (in exact arithmetic the fifteenth iterate lies strictly past the root);
  in scenario 2 at 60 degrees and 6 m/s the time is negative, not a duration.
\<close>

theorem C2_flight_end_counterexample:
  "time (solveScenario 3 30 2.5) \<noteq> None
   \<and> map_option (phys_dy (jitter_free 3 30 2.5 0 (configs ! 2))) (time (solveScenario 3 30 2.5))
       \<noteq> Some 0
   \<and> time (solveScenario 2 30 2.5) \<noteq> None
   \<and> map_option (phys_dy (jitter_free 2 30 2.5 0 (configs ! 1))) (time (solveScenario 2 30 2.5))
       \<noteq> Some 0
   \<and> num_less (time (solveScenario 2 60 6)) (Some 0)"
proof -
  have a: "(30 * pi) / 180 = pi / 6" by simp
  have v: "0 \<le> 2.5 * sin ((30 * pi) / 180)" unfolding a sin_30 by simp
  from finite_time_3_30 obtain t where t: "time (solveScenario 3 30 2.5) = Some t" by blast
  have "solver_y 1 (2.5 * sin ((30 * pi) / 180)) t \<le> 0"
    using drag_time_residual [OF _ v t] by simp
  then have "phys_dy (jitter_free 3 30 2.5 0 (configs ! 2)) t \<le> - 1"
    using phys_dy_drag [of 3 30 "2.5" 0 "configs ! 2" t]
      solver_y_shift [of 1 "2.5 * sin ((30 * pi) / 180)" t] by simp
  then have three: "time (solveScenario 3 30 2.5) \<noteq> None
     \<and> map_option (phys_dy (jitter_free 3 30 2.5 0 (configs ! 2))) (time (solveScenario 3 30 2.5))
       \<noteq> Some 0"
    using t by simp
  from finite_time_2_30 obtain s where s: "time (solveScenario 2 30 2.5) = Some s" by blast
  have A: "0 < 2.5 * sin ((30 * pi) / 180) + G / BETA"
    using v G_pos BETA_pos by (simp add: add_nonneg_pos)
  have "newton (Suc 14) 0 (2.5 * sin ((30 * pi) / 180)) 0.36 = Some s"
    using s by (simp add: solveScenario_def Let_def)
  from newton_residual_strict [OF A this] y_seed_2_30
  have "solver_y 0 (2.5 * sin ((30 * pi) / 180)) s < 0" by simp
  then have "phys_dy (jitter_free 2 30 2.5 0 (configs ! 1)) s < 0"
    using phys_dy_drag [of 2 30 "2.5" 0 "configs ! 1" s] by simp
  then have two: "time (solveScenario 2 30 2.5) \<noteq> None
     \<and> map_option (phys_dy (jitter_free 2 30 2.5 0 (configs ! 1))) (time (solveScenario 2 30 2.5))
       \<noteq> Some 0"
    using s by simp
  from spurious_root_60_6 obtain t6 where
    t6: "newton 15 0 (6 * sin ((60 * pi) / 180)) 0.36 = Some t6" "t6 < 0" by blast
  then have neg: "num_less (time (solveScenario 2 60 6)) (Some 0)"
    by (simp add: solveScenario_def Let_def num_less_Some)
  from three two neg show ?thesis by simp
qed

text \<open>
  C2, amended: for an angle in (0, 90), a positive speed and, in the drag scenarios, a seed
  past the apex (\<open>vy_t < 0\<close> at the seed), the returned time is finite and positive, the
  droplet is falling at that time, and it is on the solver's landing plane: in scenario 1
  exactly at its release height (\<open>dy = 0\<close>); for the other identifiers within 0.00054 m
  below the plane at the release height (\<open>-0.00054 < dy \<le> 0\<close>), except scenario 3, where
  the plane lies 1 m below the release height (\<open>-0.00054 < 1 + dy \<le> 0\<close>).
\<close>

theorem C2_flight_end_height:
  assumes "0 < angleDeg" and "angleDeg < 90" and "0 < v0"
    and seed: "sid \<noteq> 1 \<longrightarrow>
       solver_vy (v0 * sin ((angleDeg * pi) / 180)) (if sid = 3 then 0.65 else 0.36) < 0"
  shows "\<exists>t. time (solveScenario sid angleDeg v0) = Some t \<and> 0 < t
           \<and> phys_vy (jitter_free sid angleDeg v0 start cfg) t < 0
           \<and> (sid = 1 \<longrightarrow> phys_dy (jitter_free sid angleDeg v0 start cfg) t = 0)
           \<and> (sid \<noteq> 1 \<longrightarrow>
                - 0.00054 < (if sid = 3 then 1.0 else 0.0)
                              + phys_dy (jitter_free sid angleDeg v0 start cfg) t
                \<and> (if sid = 3 then 1.0 else 0.0)
                     + phys_dy (jitter_free sid angleDeg v0 start cfg) t \<le> 0)"
proof (cases "sid = 1")
  case True
  let ?vy = "v0 * sin ((angleDeg * pi) / 180)"
  have vy: "0 < ?vy" using sin_deg_pos [OF assms(1,2)] assms(3) by simp
  have t: "time (solveScenario 1 angleDeg v0) = Some (2 * ?vy / G)"
    by (simp add: solveScenario_def Let_def)
  have p: "0 < 2 * ?vy / G" using vy G_pos by simp
  have d: "phys_vy (jitter_free 1 angleDeg v0 start cfg) (2 * ?vy / G) < 0"
    using vy G_pos by (simp add: phys_vy_def jitter_free_def)
  show ?thesis
    using True t p d phys_dy_nodrag_landing [of angleDeg v0 start cfg] by simp
next
  case False
  let ?vy = "v0 * sin ((angleDeg * pi) / 180)"
  let ?hs = "if sid = 3 then 1.0 else 0.0 :: real"
  let ?seed = "if sid = 3 then 0.65 else 0.36 :: real"
  have vy: "0 \<le> ?vy" using sin_deg_pos [OF assms(1,2)] assms(3) by simp
  have hs: "0 \<le> ?hs" by simp
  have d: "solver_vy ?vy ?seed < 0" using seed False by simp
  from newton_15_residual [OF vy hs d] obtain t where
    t: "newton 15 ?hs ?vy ?seed = Some t" "0 < t" "solver_vy ?vy t < 0"
       "solver_y ?hs ?vy t \<le> 0" "- solver_y ?hs ?vy t < G / BETA ^ 2 / 2 ^ 13" by blast
  have tm: "time (solveScenario sid angleDeg v0) = Some t"
    using t(1) False by (simp add: solveScenario_def Let_def)
  have y: "solver_y ?hs ?vy t = ?hs + phys_dy (jitter_free sid angleDeg v0 start cfg) t"
    using phys_dy_drag [OF False, of angleDeg v0 start cfg t] solver_y_shift [of ?hs ?vy t]
    by simp
  have b: "- 0.00054 < solver_y ?hs ?vy t" using t(5) residual_bound_value by simp
  have v: "phys_vy (jitter_free sid angleDeg v0 start cfg) t < 0"
    using phys_vy_drag [OF False, of angleDeg v0 start cfg t] t(3) by simp
  show ?thesis
    using False tm t(2) v b t(4) unfolding y by blast
qed

theorem C2_flight_end_height_witness:
  "solver_vy (2.5 * sin ((30 * pi) / 180)) 0.65 < 0
   \<and> (\<exists>t. time (solveScenario 3 30 2.5) = Some t \<and> 0 < t
        \<and> - 0.00054 < 1 + phys_dy (jitter_free 3 30 2.5 0 (configs ! 2)) t
        \<and> 1 + phys_dy (jitter_free 3 30 2.5 0 (configs ! 2)) t \<le> 0)"
proof -
  have a: "(30 * pi) / 180 = pi / 6" by simp
  have v: "2.5 * sin ((30 * pi) / 180) = (1.25::real)" unfolding a sin_30 by simp
  have "(1.25::real) < G * 0.65" by (simp add: G_def)
  then have "solver_vy 1.25 0.65 < 0" by (rule seed_past_apex)
  then have d: "solver_vy (2.5 * sin ((30 * pi) / 180)) 0.65 < 0" unfolding v .
  from C2_flight_end_height [of 30 "2.5" 3 0 "configs ! 2"] d
  have "\<exists>t. time (solveScenario 3 30 2.5) = Some t \<and> 0 < t
        \<and> phys_vy (jitter_free 3 30 2.5 0 (configs ! 2)) t < 0
        \<and> - 0.00054 < 1 + phys_dy (jitter_free 3 30 2.5 0 (configs ! 2)) t
        \<and> 1 + phys_dy (jitter_free 3 30 2.5 0 (configs ! 2)) t \<le> 0"
    by simp
  then have "\<exists>t. time (solveScenario 3 30 2.5) = Some t \<and> 0 < t
        \<and> - 0.00054 < 1 + phys_dy (jitter_free 3 30 2.5 0 (configs ! 2)) t
        \<and> 1 + phys_dy (jitter_free 3 30 2.5 0 (configs ! 2)) t \<le> 0"
    by blast
  with d show ?thesis ..
qed

section \<open>Monotonicity in the launch speed\<close>

lemma square_strict_mono:
  fixes a b :: real
  assumes "0 < a" and "a < b"
  shows "a * a < b * b"
  using assms by (intro mult_strict_mono) auto

lemma tApex_pos:
  assumes "0 < vy0"
  shows "tApex vy0 = Some (- (1 / BETA) * ln (G / (G + BETA * vy0)))"
    and "0 < - (1 / BETA) * ln (G / (G + BETA * vy0))"
proof -
  have s: "0 < G + BETA * vy0" using assms G_pos BETA_pos by (simp add: add_pos_pos)
  then show "tApex vy0 = Some (- (1 / BETA) * ln (G / (G + BETA * vy0)))"
    by (simp add: tApex_def)
  have "G / (G + BETA * vy0) < 1" using s assms BETA_pos by simp
  moreover have "0 < G / (G + BETA * vy0)" using s G_pos by simp
  ultimately have "ln (G / (G + BETA * vy0)) < 0" by simp
  then show "0 < - (1 / BETA) * ln (G / (G + BETA * vy0))"
    using BETA_pos by (simp add: mult_less_0_iff zero_less_mult_iff divide_less_0_iff)
qed

text \<open>For an upward launch the apex height has a closed form.\<close>

lemma maxHeight_closed:
  assumes "0 < vy0"
  shows "maxHeight hs vy0 = hs + vy0 / BETA - (G / BETA ^ 2) * ln ((G + BETA * vy0) / G)"
proof -
  define q where "q = G / (G + BETA * vy0)"
  define ta where "ta = - (1 / BETA) * ln q"
  have s: "0 < G + BETA * vy0" using assms G_pos BETA_pos by (simp add: add_pos_pos)
  have q: "0 < q" using s G_pos by (simp add: q_def)
  have b: "BETA \<noteq> 0" using BETA_pos by simp
  have T: "tApex vy0 = Some ta" "0 < ta"
    using tApex_pos [OF assms] by (simp_all add: ta_def q_def)
  have "- BETA * ta = ln q" using b by (simp add: ta_def)
  then have e: "exp (- BETA * ta) = q" using q by simp
  have l: "ln q = - ln ((G + BETA * vy0) / G)"
    using s G_pos by (simp add: q_def ln_div)
  have one: "1 - q = BETA * vy0 / (G + BETA * vy0)"
    using s by (simp add: q_def field_simps)
  have two: "vy0 + G / BETA = (G + BETA * vy0) / BETA"
    using b by (simp add: field_simps)
  have v: "(1 / BETA) * (vy0 + G / BETA) * (1 - q) = vy0 / BETA"
    unfolding one two using s b by simp
  have "maxHeight hs vy0
          = hs + (1 / BETA) * (vy0 + G / BETA) * (1 - exp (- BETA * ta)) - (G * ta / BETA)"
    using T by (simp add: maxHeight_def)
  also have "\<dots> = hs + vy0 / BETA - (G * ta / BETA)"
    unfolding e v ..
  also have "G * ta / BETA = (G / BETA ^ 2) * ln ((G + BETA * vy0) / G)"
    unfolding ta_def l using b by (simp add: power2_eq_square)
  finally show ?thesis .
qed

lemma maxHeight_strict_mono:
  assumes "0 < a" and "a < b"
  shows "maxHeight hs a < maxHeight hs b"
proof -
  have sa: "0 < G + BETA * a" using assms G_pos BETA_pos by (simp add: add_pos_pos)
  have sb: "0 < G + BETA * b" using assms G_pos BETA_pos by (simp add: add_pos_pos)
  have bp: "0 < b" using assms by simp
  have "ln ((G + BETA * b) / G) - ln ((G + BETA * a) / G)
          = ln ((G + BETA * b) / (G + BETA * a))"
    using sa sb G_pos by (simp add: ln_div)
  also have "\<dots> \<le> (G + BETA * b) / (G + BETA * a) - 1"
    using sa sb by (intro ln_le_minus_one) simp
  also have "\<dots> = BETA * (b - a) / (G + BETA * a)"
    using sa by (simp add: field_simps)
  finally have L: "ln ((G + BETA * b) / G) - ln ((G + BETA * a) / G)
                   \<le> BETA * (b - a) / (G + BETA * a)" .
  have "(G / BETA ^ 2) * (ln ((G + BETA * b) / G) - ln ((G + BETA * a) / G))
          \<le> (G / BETA ^ 2) * (BETA * (b - a) / (G + BETA * a))"
    using L G_pos BETA_pos by (intro mult_left_mono) simp_all
  also have "\<dots> = ((b - a) / BETA) * (G / (G + BETA * a))"
    using BETA_pos sa by (simp add: power2_eq_square)
  also have "\<dots> < ((b - a) / BETA) * 1"
  proof (rule mult_strict_left_mono)
    show "G / (G + BETA * a) < 1" using sa assms(1) BETA_pos by simp
    show "0 < (b - a) / BETA" using assms(2) BETA_pos by simp
  qed
  finally have "(G / BETA ^ 2) * (ln ((G + BETA * b) / G) - ln ((G + BETA * a) / G))
                  < (b - a) / BETA" by simp
  then show ?thesis
    unfolding maxHeight_closed [OF assms(1)] maxHeight_closed [OF bp]
    by (simp add: algebra_simps diff_divide_distrib)
qed

lemma exp_m0975_lower: "0.75625 ^ 4 \<le> exp (- 0.975 :: real)"
proof -
  have "(0.75625::real) \<le> exp (- 0.24375)"
    using exp_ge_add_one_self [of "- 0.24375 :: real"] by simp
  then have "(0.75625::real) ^ 4 \<le> exp (- 0.24375) ^ 4"
    by (intro power_mono) auto
  also have "\<dots> = exp (of_nat 4 * (- 0.24375 :: real))"
    by (simp only: exp_of_nat_mult)
  also have "\<dots> = exp (- 0.975)" by simp
  finally show ?thesis .
qed

lemma vy_seed_3_60_20: "0 < solver_vy (20 * sin ((60 * pi) / 180)) 0.65"
proof -
  have A: "23.86 < 10 * sqrt 3 + G / BETA"
    using sqrt3_bounds(1) by (simp add: G_def BETA_def)
  have E: "(0.327::real) < exp (- 0.975)"
    using exp_m0975_lower by (simp add: power_numeral_reduce)
  have "6.54 < (23.86::real) * 0.327" by simp
  also have "\<dots> < (10 * sqrt 3 + G / BETA) * exp (- 0.975)"
  proof (rule mult_strict_mono [OF A E])
    show "0 < 10 * sqrt 3 + G / BETA" using G_pos BETA_pos by (simp add: add_nonneg_pos)
  qed simp
  finally show ?thesis
    by (simp add: solver_vy_def sin_60 G_def BETA_def)
qed

lemma spurious_root_3_60_20:
  "\<exists>t. newton 15 1 (20 * sin ((60 * pi) / 180)) 0.65 = Some t \<and> t < 0"
proof -
  have v: "0 < 20 * sin ((60 * pi) / 180)" by (simp add: sin_60)
  from newton_ascending [OF _ v vy_seed_3_60_20, of 1 15] show ?thesis by auto
qed

lemma positive_root_3_60_6:
  "\<exists>t. time (solveScenario 3 60 6) = Some t \<and> 0 < t"
proof -
  have a: "(60 * pi) / 180 = pi / 3" by simp
  have v: "6 * sin ((60 * pi) / 180) = 3 * sqrt 3" unfolding a sin_60 by simp
  have "3 * sqrt 3 < G * 0.65" using sqrt3_bounds(2) by (simp add: G_def)
  then have "solver_vy (3 * sqrt 3) 0.65 < 0" by (rule seed_past_apex)
  then have d: "solver_vy (6 * sin ((60 * pi) / 180)) (if (3::int) = 3 then 0.65 else 0.36) < 0"
    unfolding v by simp
  have "0 \<le> 6 * sin ((60 * pi) / 180)" unfolding v by simp
  from solver_positive_root [OF _ this d] show ?thesis by auto
qed

text \<open>
  C6, as stated: for each scenario and each fixed angle, range and height are strictly
  increasing in the speed. At angle 0 scenario 1 has range 0 and height 0 at every speed;
  in scenario 2 at 60 degrees the range at 6 m/s is below the range at 4 m/s; in scenario
  3 at 60 degrees the range at 20 m/s is below the range at 6 m/s.
\<close>

theorem C6_counterexample:
  "\<not> num_less (range_m (solveScenario 1 0 1)) (range_m (solveScenario 1 0 2))
   \<and> \<not> num_less (height (solveScenario 1 0 1)) (height (solveScenario 1 0 2))
   \<and> num_less (range_m (solveScenario 2 60 6)) (range_m (solveScenario 2 60 4))
   \<and> num_less (range_m (solveScenario 3 60 20)) (range_m (solveScenario 3 60 6))"
proof -
  have z: "\<not> num_less (range_m (solveScenario 1 0 1)) (range_m (solveScenario 1 0 2))"
    "\<not> num_less (height (solveScenario 1 0 1)) (height (solveScenario 1 0 2))"
    by (simp_all add: solveScenario_def Let_def num_less_Some)
  from spurious_root_60_6 obtain t6 where
    t6: "newton 15 0 (6 * sin ((60 * pi) / 180)) 0.36 = Some t6" "t6 < 0" by blast
  from positive_root_60_4 obtain t4 where
    t4: "time (solveScenario 2 60 4) = Some t4" "0 < t4" by blast
  have r6: "(6 * cos ((60 * pi) / 180) / BETA) * (1 - exp (- BETA * t6)) < 0"
    using drag_range_sign(1) [of "6 * cos ((60 * pi) / 180)" t6] t6(2) by (simp add: cos_60)
  have r4: "0 < (4 * cos ((60 * pi) / 180) / BETA) * (1 - exp (- BETA * t4))"
    using drag_range_sign(2) [of "4 * cos ((60 * pi) / 180)" t4] t4(2) by (simp add: cos_60)
  have n4: "newton 15 0 (4 * sin ((60 * pi) / 180)) 0.36 = Some t4"
    using t4(1) by (simp add: solveScenario_def Let_def)
  have two: "num_less (range_m (solveScenario 2 60 6)) (range_m (solveScenario 2 60 4))"
    using r6 r4 t6(1) n4 by (simp add: solveScenario_def Let_def num_less_Some)
  from spurious_root_3_60_20 obtain s20 where
    s20: "newton 15 1 (20 * sin ((60 * pi) / 180)) 0.65 = Some s20" "s20 < 0" by blast
  from positive_root_3_60_6 obtain s6 where
    s6: "time (solveScenario 3 60 6) = Some s6" "0 < s6" by blast
  have q20: "(20 * cos ((60 * pi) / 180) / BETA) * (1 - exp (- BETA * s20)) < 0"
    using drag_range_sign(1) [of "20 * cos ((60 * pi) / 180)" s20] s20(2) by (simp add: cos_60)
  have q6: "0 < (6 * cos ((60 * pi) / 180) / BETA) * (1 - exp (- BETA * s6))"
    using drag_range_sign(2) [of "6 * cos ((60 * pi) / 180)" s6] s6(2) by (simp add: cos_60)
  have m6: "newton 15 1 (6 * sin ((60 * pi) / 180)) 0.65 = Some s6"
    using s6(1) by (simp add: solveScenario_def Let_def)
  have three: "num_less (range_m (solveScenario 3 60 20)) (range_m (solveScenario 3 60 6))"
    using q20 q6 s20(1) m6 by (simp add: solveScenario_def Let_def num_less_Some)
  from z two three show ?thesis by simp
qed

lemma drag_range_mono:
  assumes a: "0 < angleDeg" "angleDeg < 90" and va: "0 < v0a" and vab: "v0a < v0b"
    and sid: "sid \<noteq> 1"
    and seed: "solver_vy (v0b * sin ((angleDeg * pi) / 180)) (if sid = 3 then 0.65 else 0.36) < 0"
  shows "num_less (range_m (solveScenario sid angleDeg v0a))
                  (range_m (solveScenario sid angleDeg v0b))"
proof -
  let ?s = "sin ((angleDeg * pi) / 180)" and ?c = "cos ((angleDeg * pi) / 180)"
  let ?hs = "if sid = 3 then 1.0 else 0.0 :: real"
  let ?seed = "if sid = 3 then 0.65 else 0.36 :: real"
  have s: "0 < ?s" using sin_deg_pos [OF a] .
  have c: "0 < ?c" using cos_deg_pos [OF a] .
  have v: "0 \<le> v0a * ?s" using va s by simp
  have vv: "v0a * ?s < v0b * ?s" using vab s by simp
  have xa: "0 < v0a * ?c" using va c by simp
  have xab: "v0a * ?c < v0b * ?c" using vab c by simp
  have hs: "0 \<le> ?hs" by simp
  have sp: "0 < ?seed" by simp
  have n: "(15::nat) = Suc 14" by simp
  from newton_seed_mono [OF v vv hs sp seed, of 14] obtain ta tb where
    t: "newton 15 ?hs (v0a * ?s) ?seed = Some ta" "newton 15 ?hs (v0b * ?s) ?seed = Some tb"
       "0 < ta" "ta < tb"
    unfolding n [symmetric] by blast
  have "(v0a * ?c / BETA) * (1 - exp (- BETA * ta)) < (v0b * ?c / BETA) * (1 - exp (- BETA * tb))"
    using drag_range_strict_mono [OF xa xab t(3,4)] .
  then show ?thesis
    using t(1,2) sid by (simp add: solveScenario_def Let_def num_less_Some)
qed

text \<open>
  C6, amended: for a fixed angle strictly between 0 and 90 degrees and speeds
  \<open>0 < v0a < v0b\<close>, the height of every scenario is strictly larger at \<open>v0b\<close> than at
  \<open>v0a\<close>, and so is the range: in scenario 1 always, in the drag scenarios whenever the
  seed lies past the apex at the larger speed (\<open>vy_t < 0\<close> at the seed for \<open>v0b\<close>).
\<close>

theorem C6_monotone_in_speed:
  assumes "0 < angleDeg" and "angleDeg < 90" and "0 < v0a" and "v0a < v0b"
  shows "num_less (height (solveScenario sid angleDeg v0a))
                  (height (solveScenario sid angleDeg v0b))
       \<and> (sid = 1 \<or> solver_vy (v0b * sin ((angleDeg * pi) / 180))
                       (if sid = 3 then 0.65 else 0.36) < 0
            \<longrightarrow> num_less (range_m (solveScenario sid angleDeg v0a))
                          (range_m (solveScenario sid angleDeg v0b)))"
proof -
  let ?s = "sin ((angleDeg * pi) / 180)" and ?c = "cos ((angleDeg * pi) / 180)"
  have s: "0 < ?s" using sin_deg_pos [OF assms(1,2)] .
  have c: "0 < ?c" using cos_deg_pos [OF assms(1,2)] .
  have va: "0 < v0a * ?s" using assms(3) s by simp
  have vab: "v0a * ?s < v0b * ?s" using assms(4) s by simp
  have sq: "v0a * v0a < v0b * v0b" using square_strict_mono [OF assms(3,4)] .
  have k: "0 < ?c * (2 * ?s / G)" using s c G_pos by simp
  have "(v0a * v0a) * (?c * (2 * ?s / G)) < (v0b * v0b) * (?c * (2 * ?s / G))"
    using sq k by (rule mult_strict_right_mono)
  then have r: "v0a * ?c * (2 * (v0a * ?s) / G) < v0b * ?c * (2 * (v0b * ?s) / G)"
    by (simp add: algebra_simps)
  have h1: "(v0a * ?s) * (v0a * ?s) / (2 * G) < (v0b * ?s) * (v0b * ?s) / (2 * G)"
    using square_strict_mono [OF va vab] G_pos by (simp add: divide_strict_right_mono)
  have hd: "maxHeight hs (v0a * ?s) < maxHeight hs (v0b * ?s)" for hs
    using maxHeight_strict_mono [OF va vab] .
  have r1: "num_less (range_m (solveScenario 1 angleDeg v0a))
                     (range_m (solveScenario 1 angleDeg v0b))"
    using r by (simp add: solveScenario_def Let_def num_less_Some)
  have hh: "num_less (height (solveScenario sid angleDeg v0a))
                     (height (solveScenario sid angleDeg v0b))"
    using h1 hd by (simp add: solveScenario_def Let_def num_less_Some)
  have rr: "num_less (range_m (solveScenario sid angleDeg v0a))
                     (range_m (solveScenario sid angleDeg v0b))"
    if "sid = 1 \<or> solver_vy (v0b * ?s) (if sid = 3 then 0.65 else 0.36) < 0"
  proof (cases "sid = 1")
    case True
    then show ?thesis using r1 by simp
  next
    case False
    with that have "solver_vy (v0b * ?s) (if sid = 3 then 0.65 else 0.36) < 0" by simp
    from drag_range_mono [OF assms False this] show ?thesis .
  qed
  from hh rr show ?thesis by blast
qed

theorem C6_monotone_in_speed_witness:
  "num_less (height (solveScenario 3 30 1)) (height (solveScenario 3 30 2))
   \<and> solver_vy (2 * sin ((30 * pi) / 180)) 0.65 < 0
   \<and> num_less (range_m (solveScenario 3 30 1)) (range_m (solveScenario 3 30 2))
   \<and> num_less (range_m (solveScenario 1 30 1)) (range_m (solveScenario 1 30 2))"
proof -
  have a: "(30 * pi) / 180 = pi / 6" by simp
  have v: "2 * sin ((30 * pi) / 180) = (1::real)" unfolding a sin_30 by simp
  have "(1::real) < G * 0.65" by (simp add: G_def)
  then have "solver_vy 1 0.65 < 0" by (rule seed_past_apex)
  then have d: "solver_vy (2 * sin ((30 * pi) / 180)) 0.65 < 0" unfolding v .
  show ?thesis
    using C6_monotone_in_speed [of 30 1 2 3] C6_monotone_in_speed [of 30 1 2 1] d by simp
qed

section \<open>The trail history\<close>

lemma calculatePhysics_cases:
  assumes "calculatePhysics p now = Inr (p1, state)"
  shows "(state = None \<and> p1 = p)
       \<or> (\<exists>st. state = Some st \<and> impact st \<and> p1 = p\<lparr>isDead := True\<rparr>)
       \<or> (\<exists>st. state = Some st \<and> \<not> impact st \<and> p1 = p)"
  using assms
  by (auto simp: calculatePhysics_def Let_def split: if_splits option.splits)

lemma phys_history:
  "phys_dx (p\<lparr>history := h\<rparr>) = phys_dx p"
  "phys_dy (p\<lparr>history := h\<rparr>) = phys_dy p"
  "phys_vx (p\<lparr>history := h\<rparr>) = phys_vx p"
  "phys_vy (p\<lparr>history := h\<rparr>) = phys_vy p"
  by (simp_all add: fun_eq_iff phys_dx_def phys_dy_def phys_vx_def phys_vy_def)

text \<open>The evaluator never reads the history.\<close>

lemma calculatePhysics_history:
  "calculatePhysics (p\<lparr>history := h\<rparr>) now =
     (case calculatePhysics p now of
        Inl e \<Rightarrow> Inl e
      | Inr (q, st) \<Rightarrow> Inr (q\<lparr>history := h\<rparr>, st))"
  unfolding calculatePhysics_def Let_def
  by (auto simp: phys_history split: option.splits)

lemma recorded_pos_history:
  "recorded_pos (p\<lparr>history := h\<rparr>) fr = recorded_pos p fr"
  unfolding recorded_pos_def calculatePhysics_history
  by (auto split: sum.splits option.splits)

lemma recorded_history:
  "recorded (p\<lparr>history := h\<rparr>) frs = recorded p frs"
  by (simp add: recorded_def recorded_pos_history [abs_def])

lemma recorded_Cons:
  "recorded p (fr # frs) =
     (case recorded_pos p fr of None \<Rightarrow> recorded p frs | Some pt \<Rightarrow> pt # recorded p frs)"
  by (simp add: recorded_def map_filter_simps split: option.splits)

text \<open>A particle that a frame keeps had no impact in it; only its history changed.\<close>

lemma draw_particle_alive:
  assumes "draw_particle fr p = Inr (Some p')"
  shows "p' = p\<lparr>history := (case recorded_pos p fr of
                                None \<Rightarrow> history p
                              | Some pt \<Rightarrow> push_history (history p) pt)\<rparr>"
proof (cases "calculatePhysics p (f_now fr)")
  case (Inl e)
  then show ?thesis using assms by (simp add: draw_particle_def)
next
  case (Inr r)
  obtain p1 state where r: "r = (p1, state)" by (cases r)
  from calculatePhysics_cases [OF Inr [unfolded r]]
  show ?thesis
  proof (elim disjE exE conjE)
    assume "state = None" "p1 = p"
    then show ?thesis
      using assms Inr r by (simp add: draw_particle_def recorded_pos_def split: if_splits)
  next
    fix st assume "state = Some st" "impact st" "p1 = p\<lparr>isDead := True\<rparr>"
    then show ?thesis
      using assms Inr r by (simp add: draw_particle_def Let_def)
  next
    fix st assume "state = Some st" "\<not> impact st" "p1 = p"
    then show ?thesis
      using assms Inr r
      by (simp add: draw_particle_def recorded_pos_def Let_def split: if_splits)
  qed
qed

lemma draw_frames_history:
  assumes "draw_frames frs p = Inr (Some p')"
  shows "history p' = foldl push_history (history p) (recorded p frs)"
  using assms
proof (induction frs arbitrary: p)
  case Nil
  then show ?case by (simp add: recorded_def map_filter_simps)
next
  case (Cons fr frs)
  from Cons.prems obtain p1 where
    p1: "draw_particle fr p = Inr (Some p1)" "draw_frames frs p1 = Inr (Some p')"
    by (auto split: sum.splits option.splits)
  note a = draw_particle_alive [OF p1(1)]
  have "history p' = foldl push_history (history p1) (recorded p1 frs)"
    using Cons.IH [OF p1(2)] .
  also have "recorded p1 frs = recorded p frs"
    by (subst a) (rule recorded_history)
  also have "history p1 = (case recorded_pos p fr of
                                None \<Rightarrow> history p
                              | Some pt \<Rightarrow> push_history (history p) pt)"
    by (subst a) simp
  finally show ?case
    by (simp add: recorded_Cons split: option.splits)
qed

lemma push_history_length:
  "length hist \<le> TRAIL_LENGTH \<Longrightarrow> length (push_history hist pt) \<le> TRAIL_LENGTH"
  by (simp add: push_history_def Let_def)

lemma foldl_push_history:
  assumes "length hist \<le> TRAIL_LENGTH"
  shows "length (foldl push_history hist pts) \<le> TRAIL_LENGTH
       \<and> foldl push_history hist pts
           = drop (length (hist @ pts) - TRAIL_LENGTH) (hist @ pts)"
  using assms
proof (induction pts arbitrary: hist)
  case Nil
  then show ?case by simp
next
  case (Cons pt pts)
  let ?h = "push_history hist pt"
  have l: "length ?h \<le> TRAIL_LENGTH" using push_history_length [OF Cons.prems] .
  have "drop (length (?h @ pts) - TRAIL_LENGTH) (?h @ pts)
          = drop (length (hist @ pt # pts) - TRAIL_LENGTH) (hist @ pt # pts)"
  proof (cases "length hist < TRAIL_LENGTH")
    case True
    then have "?h = hist @ [pt]" by (simp add: push_history_def Let_def)
    then show ?thesis by simp
  next
    case False
    with Cons.prems have e: "length hist = TRAIL_LENGTH" by simp
    then have h: "?h = drop 1 (hist @ [pt])"
      by (cases hist) (simp_all add: push_history_def Let_def TRAIL_LENGTH_def)
    have hp: "?h @ pts = drop 1 (hist @ pt # pts)"
      using e unfolding h by (cases hist) (simp_all add: TRAIL_LENGTH_def)
    have L: "length (?h @ pts) - TRAIL_LENGTH = length pts"
      using e unfolding h by simp
    have R: "length (hist @ pt # pts) - TRAIL_LENGTH = length pts + 1"
      using e by simp
    show ?thesis unfolding L R unfolding hp drop_drop ..
  qed
  with Cons.IH [OF l] show ?case by simp
qed

text \<open>
  C9. For a particle that enters a run of frames with at most 15 history entries (a new
  particle has none) and is still in \<open>sim.particles\<close> after it: the history has at most
  15 entries and is the tail of what was there followed by the recorded positions, oldest
  first; once more than 15 positions have been recorded it is exactly the 15 most recent.
\<close>

theorem C9_trail_history:
  assumes "length (history p) \<le> TRAIL_LENGTH"
    and "draw_frames frs p = Inr (Some p')"
  shows "length (history p') \<le> 15
       \<and> history p' = drop (length (history p @ recorded p frs) - 15) (history p @ recorded p frs)
       \<and> (15 < length (recorded p frs) \<longrightarrow>
            length (history p') = 15
            \<and> history p' = drop (length (recorded p frs) - 15) (recorded p frs))"
proof -
  have h: "history p' = foldl push_history (history p) (recorded p frs)"
    using draw_frames_history [OF assms(2)] .
  note f = foldl_push_history [OF assms(1), of "recorded p frs", folded h]
  have a: "length (history p') \<le> 15" using f by (simp add: TRAIL_LENGTH_def)
  have b: "history p' = drop (length (history p @ recorded p frs) - 15)
                             (history p @ recorded p frs)"
    using f by (simp add: TRAIL_LENGTH_def)
  have c: "length (history p') = 15
            \<and> history p' = drop (length (recorded p frs) - 15) (recorded p frs)"
    if "15 < length (recorded p frs)"
    using that b by simp
  from a b c show ?thesis by blast
qed

lemma draw_particle_same_state:
  assumes "calculatePhysics p (f_now fr) = Inr (p, Some st)" and "\<not> impact st"
    and "\<not> isDead p" and "\<not> f_now fr - startTime p > PARTICLE_LIFETIME"
  shows "draw_particle fr (p\<lparr>history := h\<rparr>)
           = Inr (Some (p\<lparr>history := push_history h
                (f_offsetX fr + (st_x st * f_drawW fr), st_y st * f_drawH fr)\<rparr>))"
  using assms by (simp add: draw_particle_def calculatePhysics_history Let_def)

lemma draw_frames_same_state:
  assumes "calculatePhysics p T = Inr (p, Some st)" and "\<not> impact st"
    and "\<not> isDead p" and "\<not> T - startTime p > PARTICLE_LIFETIME"
    and "\<forall>fr \<in> set frs. f_now fr = T"
  shows "\<exists>p'. draw_frames frs (p\<lparr>history := h\<rparr>) = Inr (Some p')"
  using assms(5)
proof (induction frs arbitrary: h)
  case Nil
  then show ?case by simp
next
  case (Cons fr frs)
  then have T: "f_now fr = T" and rest: "\<forall>fr \<in> set frs. f_now fr = T" by simp_all
  show ?case
    using draw_particle_same_state [of p fr st h] assms(1-4) T Cons.IH [OF rest]
    by simp
qed

lemma recorded_same_state:
  assumes "calculatePhysics p T = Inr (p, Some st)" and "\<forall>fr \<in> set frs. f_now fr = T"
  shows "length (recorded p frs) = length frs"
  using assms(2)
proof (induction frs)
  case Nil
  then show ?case by (simp add: recorded_def map_filter_simps)
next
  case (Cons fr frs)
  then have "recorded_pos p fr \<noteq> None"
    using assms(1) by (simp add: recorded_pos_def)
  with Cons show ?case by (auto simp: recorded_Cons split: option.splits)
qed

lemma demo_state:
  "\<exists>st. calculatePhysics (jitter_free 3 30 2.5 0 (configs ! 2)) 0
           = Inr (jitter_free 3 30 2.5 0 (configs ! 2), Some st) \<and> \<not> impact st"
  by (simp add: calculatePhysics_def Let_def find_configs jitter_free_def configs_def
      phys_dx_def phys_dy_def phys_vx_def phys_vy_def)

theorem C9_trail_history_witness:
  "length (history (jitter_free 3 30 2.5 0 (configs ! 2))) \<le> TRAIL_LENGTH
   \<and> 15 < length (recorded (jitter_free 3 30 2.5 0 (configs ! 2)) demo_frames)
   \<and> (\<exists>p'. draw_frames demo_frames (jitter_free 3 30 2.5 0 (configs ! 2)) = Inr (Some p')
          \<and> length (history p') = 15
          \<and> history p'
              = drop (length (recorded (jitter_free 3 30 2.5 0 (configs ! 2)) demo_frames) - 15)
                     (recorded (jitter_free 3 30 2.5 0 (configs ! 2)) demo_frames))"
proof -
  let ?p = "jitter_free 3 30 2.5 0 (configs ! 2)"
  from demo_state obtain st where
    st: "calculatePhysics ?p 0 = Inr (?p, Some st)" "\<not> impact st" by blast
  have now: "\<forall>fr \<in> set demo_frames. f_now fr = 0" by (simp add: demo_frames_def)
  have alive: "\<not> isDead ?p" "\<not> 0 - startTime ?p > PARTICLE_LIFETIME"
    by (simp_all add: jitter_free_def PARTICLE_LIFETIME_def)
  have len: "length (history ?p) \<le> TRAIL_LENGTH" by (simp add: jitter_free_def)
  have self: "?p\<lparr>history := []\<rparr> = ?p" by (simp add: jitter_free_def)
  from draw_frames_same_state [OF st alive now, of "[]"] obtain p' where
    p': "draw_frames demo_frames ?p = Inr (Some p')" unfolding self by blast
  have n: "15 < length (recorded ?p demo_frames)"
    using recorded_same_state [OF st(1) now] by (simp add: demo_frames_def)
  from C9_trail_history [OF len p'] n
  have "length (history p') = 15
        \<and> history p' = drop (length (recorded ?p demo_frames) - 15) (recorded ?p demo_frames)"
    by blast
  with len n p' show ?thesis by blast
qed

end
